theory Spec2Isabelle
  imports Complex_Main "HOL-Library.Word" "HOL-Library.Signed_Division"
begin

section \<open>The tile engine (tile\_engine.h and its implementation)\<close>

text \<open>
  Naming. A private member \<open>name_\<close> of a C++ class is the record field \<open>t_name\<close>
  (Tile), \<open>g_name\<close> (TileGrid), \<open>l_name\<close> (Layer), \<open>u_name\<close> (UndoStack) or
  \<open>c_name\<close> (CanvasCore); the channels \<open>r, g, b, a\<close> of a Pixel are \<open>px_r\<close>, ...,
  \<open>px_a\<close>. A member function \<open>Class::f\<close> is the constant \<open>Class_f\<close>; where the source
  overloads \<open>f\<close> on const, the const overload is \<open>Class_f\<close> and the mutable one
  \<open>Class_f_mut\<close>.

  Integers. \<open>uint16_t\<close> is \<open>16 word\<close>. \<open>int\<close> is modelled by the unbounded integers
  (no expression of the code studied here leaves the 32-bit range on inputs that fit in
  memory), with the division and remainder of C++, which truncate towards zero
  (\<open>sdiv\<close>, \<open>smod\<close>). \<open>size_t\<close> is a natural number below \<open>2 ^ 64\<close>; its
  subtractions are written with the wrap-around.

  A \<open>float\<close> value is carried by the real number it denotes. The float expressions
  of the brush and eraser kernels and of the plugins are parameters of the model; the
  arithmetic of \<open>blendPixels\<close> is modelled with its rounding.
\<close>

type_synonym u16 = "16 word"

record Pixel =
  px_r :: u16
  px_g :: u16
  px_b :: u16
  px_a :: u16

definition Pixel_default :: Pixel where
  \<comment> \<open>\<open>Pixel() : r(0), g(0), b(0), a(65535)\<close>\<close>
  "Pixel_default = \<lparr>px_r = 0, px_g = 0, px_b = 0, px_a = 65535\<rparr>"

definition TILE_SIZE :: int where
  "TILE_SIZE = 256"

record Tile =
  t_pixels :: "Pixel list"
  t_x :: int
  t_y :: int
  t_dirty :: bool

definition Tile_ctor :: "int \<Rightarrow> int \<Rightarrow> Tile" where
  \<comment> \<open>\<open>Tile(int x, int y)\<close>; the default constructor \<open>Tile()\<close> is \<open>Tile_ctor 0 0\<close>\<close>
  "Tile_ctor x y =
     \<lparr>t_pixels = replicate (nat (TILE_SIZE * TILE_SIZE)) Pixel_default,
      t_x = x, t_y = y, t_dirty = False\<rparr>"

definition local_out_of_range :: "int \<Rightarrow> int \<Rightarrow> bool" where
  \<comment> \<open>the guard of both overloads of \<open>Tile::at\<close>\<close>
  "local_out_of_range x y \<longleftrightarrow> x < 0 \<or> x \<ge> TILE_SIZE \<or> y < 0 \<or> y \<ge> TILE_SIZE"

definition Tile_at :: "Tile \<Rightarrow> int \<Rightarrow> int \<Rightarrow> Pixel" where
  \<comment> \<open>\<open>const Pixel& Tile::at(int x, int y) const\<close>: its dummy is \<open>static const\<close>\<close>
  "Tile_at t x y =
     (if local_out_of_range x y then Pixel_default
      else t_pixels t ! nat (y * TILE_SIZE + x))"

text \<open>
  The mutable overloads return references. A reference is either a place inside the
  object or the function's \<open>static\<close> dummy, which is one object for the whole process:
  \<open>static Pixel dummy\<close> in \<open>Tile::at\<close> and \<open>static Tile dummy\<close> in
  \<open>TileGrid::getTile\<close>. Both are part of the state.
\<close>

datatype pixel_ref = StoredPixel nat | DummyPixel

datatype tile_ref = StoredTile nat | DummyTile

record statics =
  at_dummy :: Pixel
  getTile_dummy :: Tile

definition statics_init :: statics where
  \<comment> \<open>the value of the two dummies when they are first reached\<close>
  "statics_init = \<lparr>at_dummy = Pixel_default, getTile_dummy = Tile_ctor 0 0\<rparr>"

definition Tile_at_mut :: "Tile \<Rightarrow> int \<Rightarrow> int \<Rightarrow> pixel_ref \<times> Tile" where
  \<comment> \<open>\<open>Pixel& Tile::at(int x, int y)\<close>: the reference and the tile afterwards\<close>
  "Tile_at_mut t x y =
     (if local_out_of_range x y then (DummyPixel, t)
      else (StoredPixel (nat (y * TILE_SIZE + x)), t\<lparr>t_dirty := True\<rparr>))"

definition Tile_read :: "Pixel \<Rightarrow> Tile \<Rightarrow> pixel_ref \<Rightarrow> Pixel" where
  \<comment> \<open>reading through a \<open>Pixel&\<close>; the first argument is the current dummy\<close>
  "Tile_read d t ref = (case ref of StoredPixel i \<Rightarrow> t_pixels t ! i | DummyPixel \<Rightarrow> d)"

definition Tile_write :: "pixel_ref \<Rightarrow> Pixel \<Rightarrow> Pixel \<times> Tile \<Rightarrow> Pixel \<times> Tile" where
  \<comment> \<open>assigning through a \<open>Pixel&\<close>; the state is the dummy and the tile\<close>
  "Tile_write ref p s =
     (case ref of
        StoredPixel i \<Rightarrow> (fst s, (snd s)\<lparr>t_pixels := (t_pixels (snd s))[i := p]\<rparr>)
      | DummyPixel \<Rightarrow> (p, snd s))"

definition Tile_clear :: "Tile \<Rightarrow> Tile" where
  "Tile_clear t =
     t\<lparr>t_pixels := replicate (length (t_pixels t)) Pixel_default, t_dirty := True\<rparr>"

definition Tile_fill :: "Tile \<Rightarrow> Pixel \<Rightarrow> Tile" where
  "Tile_fill t color =
     t\<lparr>t_pixels := replicate (length (t_pixels t)) color, t_dirty := True\<rparr>"

definition Tile_clone :: "Tile \<Rightarrow> Tile" where
  "Tile_clone t = (Tile_ctor (t_x t) (t_y t))\<lparr>t_pixels := t_pixels t, t_dirty := t_dirty t\<rparr>"

subsection \<open>Tile arithmetic\<close>

text \<open>
  In \<open>std::min<uint16_t>(65535, pixels_[i].r + other.pixels_[i].r)\<close> the sum is computed
  in \<open>int\<close> (integer promotion) and then converted to the parameter type
  \<open>const uint16_t&\<close> of \<open>std::min<uint16_t>\<close>, that is reduced modulo \<open>2 ^ 16\<close>, before
  the comparison. The same holds for \<open>std::max<uint16_t>(0, ... - ...)\<close>.
\<close>

definition add_channel :: "u16 \<Rightarrow> u16 \<Rightarrow> u16" where
  "add_channel x y = min (65535 :: u16) (word_of_int (uint x + uint y))"

definition sub_channel :: "u16 \<Rightarrow> u16 \<Rightarrow> u16" where
  "sub_channel x y = max (0 :: u16) (word_of_int (uint x - uint y))"

definition mul_channel :: "(u16 \<Rightarrow> real \<Rightarrow> u16) \<Rightarrow> u16 \<Rightarrow> real \<Rightarrow> u16" where
  \<comment> \<open>\<open>std::min<uint16_t>(65535, static_cast<uint16_t>(pixel.r * factor))\<close>; the parameter
      \<open>conv\<close> is the float product and its conversion\<close>
  "mul_channel conv x factor = min (65535 :: u16) (conv x factor)"

definition Pixel_add :: "Pixel \<Rightarrow> Pixel \<Rightarrow> Pixel" where
  "Pixel_add p q =
     \<lparr>px_r = add_channel (px_r p) (px_r q), px_g = add_channel (px_g p) (px_g q),
      px_b = add_channel (px_b p) (px_b q), px_a = add_channel (px_a p) (px_a q)\<rparr>"

definition Pixel_sub :: "Pixel \<Rightarrow> Pixel \<Rightarrow> Pixel" where
  "Pixel_sub p q =
     \<lparr>px_r = sub_channel (px_r p) (px_r q), px_g = sub_channel (px_g p) (px_g q),
      px_b = sub_channel (px_b p) (px_b q), px_a = sub_channel (px_a p) (px_a q)\<rparr>"

definition Pixel_mul :: "(u16 \<Rightarrow> real \<Rightarrow> u16) \<Rightarrow> Pixel \<Rightarrow> real \<Rightarrow> Pixel" where
  "Pixel_mul conv p factor =
     \<lparr>px_r = mul_channel conv (px_r p) factor, px_g = mul_channel conv (px_g p) factor,
      px_b = mul_channel conv (px_b p) factor, px_a = mul_channel conv (px_a p) factor\<rparr>"

definition Tile_add_assign :: "Tile \<Rightarrow> Tile \<Rightarrow> Tile" where
  \<comment> \<open>\<open>Tile::operator+=\<close>: the loop runs over the indices of \<open>pixels_\<close>\<close>
  "Tile_add_assign t other =
     t\<lparr>t_pixels := map (\<lambda>i. Pixel_add (t_pixels t ! i) (t_pixels other ! i))
                       [0..<length (t_pixels t)],
       t_dirty := True\<rparr>"

definition Tile_sub_assign :: "Tile \<Rightarrow> Tile \<Rightarrow> Tile" where
  \<comment> \<open>\<open>Tile::operator-=\<close>\<close>
  "Tile_sub_assign t other =
     t\<lparr>t_pixels := map (\<lambda>i. Pixel_sub (t_pixels t ! i) (t_pixels other ! i))
                       [0..<length (t_pixels t)],
       t_dirty := True\<rparr>"

definition Tile_mul_assign :: "(u16 \<Rightarrow> real \<Rightarrow> u16) \<Rightarrow> Tile \<Rightarrow> real \<Rightarrow> Tile" where
  \<comment> \<open>\<open>Tile::operator*=\<close>\<close>
  "Tile_mul_assign conv t factor =
     t\<lparr>t_pixels := map (\<lambda>p. Pixel_mul conv p factor) (t_pixels t), t_dirty := True\<rparr>"

subsection \<open>TileGrid\<close>

datatype fault =
    LengthError  \<comment> \<open>\<open>std::length_error\<close> thrown by \<open>vector::reserve\<close>\<close>
  | OutOfRange   \<comment> \<open>a \<open>vector\<close> indexed outside its size: undefined behaviour\<close>
  | ConversionOverflow
      \<comment> \<open>a \<open>float\<close> converted to an integer type that cannot hold it: undefined behaviour\<close>

record TileGrid =
  g_tiles :: "Tile list"
  g_width :: int
  g_height :: int
  g_tileCountX :: int
  g_tileCountY :: int

definition TileGrid_ctor :: "int \<Rightarrow> int \<Rightarrow> fault + TileGrid" where
  \<comment> \<open>\<open>TileGrid(int width, int height)\<close>. \<open>tiles_.reserve(tileCountX_ * tileCountY_)\<close>
      converts the product to \<open>size_t\<close>, so a negative product asks for more than
      \<open>max_size()\<close> and throws.\<close>
  "TileGrid_ctor width height =
     (let tcx = (width + TILE_SIZE - 1) sdiv TILE_SIZE;
          tcy = (height + TILE_SIZE - 1) sdiv TILE_SIZE
      in if tcx * tcy < 0 then Inl LengthError
         else Inr \<lparr>g_tiles = concat (map (\<lambda>ty. map (\<lambda>tx.
                        Tile_ctor (int tx * TILE_SIZE) (int ty * TILE_SIZE))
                      [0..<nat tcx]) [0..<nat tcy]),
                   g_width = width, g_height = height,
                   g_tileCountX = tcx, g_tileCountY = tcy\<rparr>)"

definition tile_out_of_range :: "TileGrid \<Rightarrow> int \<Rightarrow> int \<Rightarrow> bool" where
  \<comment> \<open>the guard of both overloads of \<open>TileGrid::getTile\<close>\<close>
  "tile_out_of_range gr tileX tileY \<longleftrightarrow>
     tileX < 0 \<or> tileX \<ge> g_tileCountX gr \<or> tileY < 0 \<or> tileY \<ge> g_tileCountY gr"

definition TileGrid_getTile :: "TileGrid \<Rightarrow> int \<Rightarrow> int \<Rightarrow> Tile" where
  \<comment> \<open>the const overload: its dummy is a \<open>static const Tile\<close>\<close>
  "TileGrid_getTile gr tileX tileY =
     (if tile_out_of_range gr tileX tileY then Tile_ctor 0 0
      else g_tiles gr ! nat (tileY * g_tileCountX gr + tileX))"

definition TileGrid_getTile_mut :: "TileGrid \<Rightarrow> int \<Rightarrow> int \<Rightarrow> tile_ref" where
  \<comment> \<open>the mutable overload returns a reference\<close>
  "TileGrid_getTile_mut gr tileX tileY =
     (if tile_out_of_range gr tileX tileY then DummyTile
      else StoredTile (nat (tileY * g_tileCountX gr + tileX)))"

definition tile_deref :: "statics \<times> TileGrid \<Rightarrow> tile_ref \<Rightarrow> Tile" where
  "tile_deref w ref =
     (case ref of StoredTile k \<Rightarrow> g_tiles (snd w) ! k | DummyTile \<Rightarrow> getTile_dummy (fst w))"

definition tile_assign :: "tile_ref \<Rightarrow> Tile \<Rightarrow> statics \<times> TileGrid \<Rightarrow> statics \<times> TileGrid" where
  "tile_assign ref t w =
     (case ref of
        StoredTile k \<Rightarrow> (fst w, (snd w)\<lparr>g_tiles := (g_tiles (snd w))[k := t]\<rparr>)
      | DummyTile \<Rightarrow> ((fst w)\<lparr>getTile_dummy := t\<rparr>, snd w))"

definition TileGrid_copy :: "TileGrid \<Rightarrow> TileGrid" where
  \<comment> \<open>the copy constructor \<open>TileGrid(const TileGrid& other)\<close>; each tile is copied by the
      implicit copy constructor of \<open>Tile\<close>\<close>
  "TileGrid_copy other =
     \<lparr>g_tiles = concat (map (\<lambda>ty. map (\<lambda>tx. TileGrid_getTile other (int tx) (int ty))
                    [0..<nat (g_tileCountX other)]) [0..<nat (g_tileCountY other)]),
      g_width = g_width other, g_height = g_height other,
      g_tileCountX = g_tileCountX other, g_tileCountY = g_tileCountY other\<rparr>"

definition TileGrid_assign :: "TileGrid \<Rightarrow> TileGrid \<Rightarrow> TileGrid" where
  \<comment> \<open>\<open>TileGrid::operator=\<close> between two distinct objects: the new value of \<open>*this\<close>\<close>
  "TileGrid_assign this other = TileGrid_copy other"

definition TileGrid_getPixel :: "TileGrid \<Rightarrow> int \<Rightarrow> int \<Rightarrow> Pixel" where
  \<comment> \<open>the const overload\<close>
  "TileGrid_getPixel gr x y =
     (let tileX = x sdiv TILE_SIZE; tileY = y sdiv TILE_SIZE;
          localX = x smod TILE_SIZE; localY = y smod TILE_SIZE
      in Tile_at (TileGrid_getTile gr tileX tileY) localX localY)"

definition TileGrid_getPixel_mut ::
    "statics \<times> TileGrid \<Rightarrow> int \<Rightarrow> int \<Rightarrow> (tile_ref \<times> pixel_ref) \<times> (statics \<times> TileGrid)" where
  \<comment> \<open>the mutable overload: the reference, and the state after \<open>Tile::at\<close> has set the
      dirty flag of the tile it was called on\<close>
  "TileGrid_getPixel_mut w x y =
     (let tileX = x sdiv TILE_SIZE; tileY = y sdiv TILE_SIZE;
          localX = x smod TILE_SIZE; localY = y smod TILE_SIZE;
          tref = TileGrid_getTile_mut (snd w) tileX tileY;
          (pref, t') = Tile_at_mut (tile_deref w tref) localX localY
      in ((tref, pref), tile_assign tref t' w))"

definition pixel_read :: "statics \<times> TileGrid \<Rightarrow> tile_ref \<times> pixel_ref \<Rightarrow> Pixel" where
  \<comment> \<open>reading through the \<open>Pixel&\<close> that \<open>getPixel\<close> returned\<close>
  "pixel_read w ref = Tile_read (at_dummy (fst w)) (tile_deref w (fst ref)) (snd ref)"

definition pixel_write ::
    "tile_ref \<times> pixel_ref \<Rightarrow> Pixel \<Rightarrow> statics \<times> TileGrid \<Rightarrow> statics \<times> TileGrid" where
  \<comment> \<open>assigning through the \<open>Pixel&\<close> that \<open>getPixel\<close> returned\<close>
  "pixel_write ref p w =
     (let (d', t') = Tile_write (snd ref) p (at_dummy (fst w), tile_deref w (fst ref));
          w' = tile_assign (fst ref) t' w
      in ((fst w')\<lparr>at_dummy := d'\<rparr>, snd w'))"

definition TileGrid_clear :: "TileGrid \<Rightarrow> TileGrid" where
  "TileGrid_clear gr = gr\<lparr>g_tiles := map Tile_clear (g_tiles gr)\<rparr>"

definition TileGrid_fill :: "TileGrid \<Rightarrow> Pixel \<Rightarrow> TileGrid" where
  "TileGrid_fill gr color = gr\<lparr>g_tiles := map (\<lambda>t. Tile_fill t color) (g_tiles gr)\<rparr>"


subsection \<open>Conversion to and from the external image matrix\<close>

text \<open>
  \<open>cv::Mat\<close> of type \<open>CV_16UC4\<close>: the header fields \<open>rows\<close> and \<open>cols\<close> and the
  elements (\<open>cv::Vec4w\<close>, four \<open>uint16_t\<close>) in row-major order. The element
  \<open>mat.at<cv::Vec4w>(y, x)\<close> is at position \<open>y * cols + x\<close>.
\<close>

type_synonym Vec4w = "u16 \<times> u16 \<times> u16 \<times> u16"

record Mat =
  m_rows :: int
  m_cols :: int
  m_data :: "Vec4w list"

definition Mat_at :: "Mat \<Rightarrow> int \<Rightarrow> int \<Rightarrow> Vec4w" where
  "Mat_at mat y x = m_data mat ! nat (y * m_cols mat + x)"

definition to_Vec4w :: "Pixel \<Rightarrow> Vec4w" where
  \<comment> \<open>\<open>pixel[0] = p.b; pixel[1] = p.g; pixel[2] = p.r; pixel[3] = p.a\<close>\<close>
  "to_Vec4w p = (px_b p, px_g p, px_r p, px_a p)"

definition of_Vec4w :: "Vec4w \<Rightarrow> Pixel" where
  \<comment> \<open>\<open>Pixel(pixel[2], pixel[1], pixel[0], pixel[3])\<close>\<close>
  "of_Vec4w v = (case v of (v0, v1, v2, v3) \<Rightarrow> \<lparr>px_r = v2, px_g = v1, px_b = v0, px_a = v3\<rparr>)"

definition TileGrid_toMat :: "TileGrid \<Rightarrow> Mat" where
  "TileGrid_toMat gr =
     \<lparr>m_rows = g_height gr, m_cols = g_width gr,
      m_data = concat (map (\<lambda>y. map (\<lambda>x. to_Vec4w (TileGrid_getPixel gr (int x) (int y)))
                 [0..<nat (g_width gr)]) [0..<nat (g_height gr)])\<rparr>"

definition TileGrid_setPixel ::
    "statics \<times> TileGrid \<Rightarrow> int \<Rightarrow> int \<Rightarrow> Pixel \<Rightarrow> statics \<times> TileGrid" where
  \<comment> \<open>the statement \<open>grid.getPixel(x, y) = p;\<close> on a mutable grid\<close>
  "TileGrid_setPixel w x y p =
     (let (ref, w') = TileGrid_getPixel_mut w x y in pixel_write ref p w')"

definition fromMat_store :: "Mat \<Rightarrow> int \<Rightarrow> statics \<times> TileGrid \<Rightarrow> int \<Rightarrow> statics \<times> TileGrid" where
  \<comment> \<open>the body of the inner loop of \<open>TileGrid::fromMat\<close>:
      \<open>getPixel(x, y) = Pixel(pixel[2], pixel[1], pixel[0], pixel[3])\<close>\<close>
  "fromMat_store mat y w x =
     (let pixel = Mat_at mat y x in TileGrid_setPixel w x y (of_Vec4w pixel))"

definition TileGrid_fromMat :: "statics \<times> TileGrid \<Rightarrow> Mat \<Rightarrow> statics \<times> TileGrid" where
  "TileGrid_fromMat w mat =
     (if m_rows mat \<noteq> g_height (snd w) \<or> m_cols mat \<noteq> g_width (snd w) then w
      else foldl (\<lambda>w y. foldl (fromMat_store mat y) w (map int [0..<nat (g_width (snd w))]))
             w (map int [0..<nat (g_height (snd w))]))"





section \<open>Layers (canvas\_core.h)\<close>

datatype BlendMode =
    Normal | Multiply | Screen | Overlay | SoftLight | HardLight
  | ColorDodge | ColorBurn | Darken | Lighten | Difference | Exclusion

text \<open>
  \<open>clipMask_\<close> is a \<open>std::shared_ptr<Layer>\<close> that the code stores and returns and never
  dereferences: it is modelled by the identity of the object it points to, \<open>None\<close> being
  the null pointer.
\<close>

record Layer =
  l_name :: string
  l_pixels :: TileGrid
  l_opacity :: real
  l_blendMode :: BlendMode
  l_visible :: bool
  l_clipMask :: "nat option"
  l_adjustments :: "(string \<times> (string \<rightharpoonup> real)) list"

definition Layer_ctor :: "string \<Rightarrow> int \<Rightarrow> int \<Rightarrow> fault + Layer" where
  \<comment> \<open>\<open>Layer(name, width, height) : name_(name), pixels_(width, height), opacity_(1.0f),
      blendMode_(BlendMode::Normal), visible_(true)\<close>; the two other members are
      default-constructed\<close>
  "Layer_ctor name width height =
     (case TileGrid_ctor width height of
        Inl e \<Rightarrow> Inl e
      | Inr gr \<Rightarrow> Inr \<lparr>l_name = name, l_pixels = gr, l_opacity = 1, l_blendMode = Normal,
                       l_visible = True, l_clipMask = None, l_adjustments = []\<rparr>)"

definition Layer_setOpacity :: "Layer \<Rightarrow> real \<Rightarrow> Layer" where
  \<comment> \<open>\<open>std::clamp(opacity, 0.0f, 1.0f)\<close>\<close>
  "Layer_setOpacity l opacity =
     l\<lparr>l_opacity := (if opacity < 0 then 0 else if 1 < opacity then 1 else opacity)\<rparr>"

definition Layer_addAdjustment :: "Layer \<Rightarrow> string \<Rightarrow> (string \<rightharpoonup> real) \<Rightarrow> Layer" where
  "Layer_addAdjustment l type params = l\<lparr>l_adjustments := l_adjustments l @ [(type, params)]\<rparr>"

definition Layer_removeAdjustment :: "Layer \<Rightarrow> int \<Rightarrow> Layer" where
  "Layer_removeAdjustment l index =
     (if index \<ge> 0 \<and> index < int (length (l_adjustments l))
      then l\<lparr>l_adjustments := take (nat index) (l_adjustments l)
                                 @ drop (Suc (nat index)) (l_adjustments l)\<rparr>
      else l)"

definition Layer_clearAdjustments :: "Layer \<Rightarrow> Layer" where
  "Layer_clearAdjustments l = l\<lparr>l_adjustments := []\<rparr>"

section \<open>The undo stack (undo\_stack.h, undo\_stack.cpp)\<close>

record UndoState =
  layerSnapshots :: "TileGrid list"
  description :: string
  timestamp :: int

record UndoStack =
  u_states :: "UndoState list"
  u_currentIndex :: nat
  u_maxStates :: nat

definition SIZE_MOD :: nat where
  \<comment> \<open>\<open>size_t\<close> arithmetic is modulo this number\<close>
  "SIZE_MOD = 2 ^ 64"

definition UndoStack_ctor :: "nat \<Rightarrow> UndoStack" where
  "UndoStack_ctor maxStates = \<lparr>u_states = [], u_currentIndex = 0, u_maxStates = maxStates\<rparr>"

definition UndoStack_canUndo :: "UndoStack \<Rightarrow> bool" where
  \<comment> \<open>\<open>return currentIndex_ > 0;\<close>\<close>
  "UndoStack_canUndo us \<longleftrightarrow> u_currentIndex us > 0"

definition UndoStack_canRedo :: "UndoStack \<Rightarrow> bool" where
  \<comment> \<open>\<open>return currentIndex_ < states_.size() - 1;\<close> where the subtraction is in
      \<open>size_t\<close>\<close>
  "UndoStack_canRedo us \<longleftrightarrow>
     u_currentIndex us < (length (u_states us) + SIZE_MOD - 1) mod SIZE_MOD"

definition UndoStack_trimStates :: "UndoStack \<Rightarrow> UndoStack" where
  \<comment> \<open>\<open>std::max<size_t>(0, currentIndex_ - toRemove)\<close>: the difference is taken in
      \<open>size_t\<close>\<close>
  "UndoStack_trimStates us =
     (if length (u_states us) \<le> u_maxStates us then us
      else (let toRemove = length (u_states us) - u_maxStates us
            in us\<lparr>u_states := drop toRemove (u_states us),
                  u_currentIndex :=
                    max 0 ((u_currentIndex us + SIZE_MOD - toRemove) mod SIZE_MOD)\<rparr>))"

definition UndoStack_pushState :: "UndoStack \<Rightarrow> TileGrid list \<Rightarrow> string \<Rightarrow> int \<Rightarrow> UndoStack" where
  \<comment> \<open>the last argument is the reading of the system clock, in seconds\<close>
  "UndoStack_pushState us snapshots desc now =
     (let us1 = (if u_currentIndex us < length (u_states us)
                 then us\<lparr>u_states := take (u_currentIndex us) (u_states us)\<rparr> else us);
          state = \<lparr>layerSnapshots = map TileGrid_copy snapshots,
                   description = desc, timestamp = now\<rparr>;
          us2 = us1\<lparr>u_states := u_states us1 @ [state],
                    u_currentIndex := u_currentIndex us1 + 1\<rparr>
      in UndoStack_trimStates us2)"

definition UndoStack_popState :: "UndoStack \<Rightarrow> fault + (TileGrid list \<times> UndoStack)" where
  \<comment> \<open>\<open>states_[currentIndex_]\<close> is unchecked: outside the vector it is a fault\<close>
  "UndoStack_popState us =
     (if \<not> UndoStack_canUndo us then Inr ([], us)
      else (let us1 = us\<lparr>u_currentIndex := u_currentIndex us - 1\<rparr>
            in if u_currentIndex us1 < length (u_states us1)
               then Inr (map TileGrid_copy (layerSnapshots (u_states us1 ! u_currentIndex us1)),
                         us1)
               else Inl OutOfRange))"

definition UndoStack_redoState :: "UndoStack \<Rightarrow> fault + (TileGrid list \<times> UndoStack)" where
  "UndoStack_redoState us =
     (if \<not> UndoStack_canRedo us then Inr ([], us)
      else if u_currentIndex us < length (u_states us)
           then Inr (map TileGrid_copy (layerSnapshots (u_states us ! u_currentIndex us)),
                     us\<lparr>u_currentIndex := u_currentIndex us + 1\<rparr>)
           else Inl OutOfRange)"

definition UndoStack_getUndoDescription :: "UndoStack \<Rightarrow> fault + string" where
  "UndoStack_getUndoDescription us =
     (if \<not> UndoStack_canUndo us then Inr []
      else if u_currentIndex us - 1 < length (u_states us)
           then Inr (description (u_states us ! (u_currentIndex us - 1)))
           else Inl OutOfRange)"

definition UndoStack_getRedoDescription :: "UndoStack \<Rightarrow> fault + string" where
  "UndoStack_getRedoDescription us =
     (if \<not> UndoStack_canRedo us then Inr []
      else if u_currentIndex us < length (u_states us)
           then Inr (description (u_states us ! u_currentIndex us))
           else Inl OutOfRange)"

definition UndoStack_clear :: "UndoStack \<Rightarrow> UndoStack" where
  "UndoStack_clear us = us\<lparr>u_states := [], u_currentIndex := 0\<rparr>"

definition UndoStack_setMaxStates :: "UndoStack \<Rightarrow> nat \<Rightarrow> UndoStack" where
  "UndoStack_setMaxStates us maxStates = us\<lparr>u_maxStates := maxStates\<rparr>"


section \<open>The canvas (canvas\_core.h, canvas\_core.cpp)\<close>

record CanvasCore =
  c_width :: int
  c_height :: int
  c_layers :: "Layer list"
  c_selection :: "(int \<times> int) list"
  c_undoStack :: UndoStack

definition CanvasCore_addLayer :: "CanvasCore \<Rightarrow> string \<Rightarrow> fault + (Layer \<times> CanvasCore)" where
  "CanvasCore_addLayer c name =
     (case Layer_ctor name (c_width c) (c_height c) of
        Inl e \<Rightarrow> Inl e
      | Inr layer \<Rightarrow> Inr (layer, c\<lparr>c_layers := c_layers c @ [layer]\<rparr>))"

definition CanvasCore_ctor :: "int \<Rightarrow> int \<Rightarrow> fault + CanvasCore" where
  \<comment> \<open>\<open>undoStack_(std::make_unique<UndoStack>())\<close> takes the default \<open>maxStates = 50\<close>\<close>
  "CanvasCore_ctor width height =
     (case CanvasCore_addLayer
             \<lparr>c_width = width, c_height = height, c_layers = [], c_selection = [],
              c_undoStack = UndoStack_ctor 50\<rparr> ''Background'' of
        Inl e \<Rightarrow> Inl e
      | Inr (layer, c) \<Rightarrow> Inr c)"

fun resize_layers :: "Layer list \<Rightarrow> int \<Rightarrow> int \<Rightarrow> fault + Layer list" where
  \<comment> \<open>\<open>for (auto& layer : layers_)
        layer = std::make_shared<Layer>(layer->getName(), width, height);\<close>\<close>
  "resize_layers [] width height = Inr []"
| "resize_layers (layer # rest) width height =
     (case Layer_ctor (l_name layer) width height of
        Inl e \<Rightarrow> Inl e
      | Inr layer' \<Rightarrow>
          (case resize_layers rest width height of
             Inl e \<Rightarrow> Inl e
           | Inr rest' \<Rightarrow> Inr (layer' # rest')))"

definition CanvasCore_resize :: "CanvasCore \<Rightarrow> int \<Rightarrow> int \<Rightarrow> fault + CanvasCore" where
  "CanvasCore_resize c width height =
     (let c1 = c\<lparr>c_width := width, c_height := height\<rparr>
      in case resize_layers (c_layers c1) width height of
           Inl e \<Rightarrow> Inl e
         | Inr layers \<Rightarrow> Inr (c1\<lparr>c_layers := layers\<rparr>))"

definition CanvasCore_removeLayer :: "CanvasCore \<Rightarrow> int \<Rightarrow> CanvasCore" where
  "CanvasCore_removeLayer c index =
     (if index \<ge> 0 \<and> index < int (length (c_layers c))
      then c\<lparr>c_layers := take (nat index) (c_layers c) @ drop (Suc (nat index)) (c_layers c)\<rparr>
      else c)"

definition CanvasCore_moveLayer :: "CanvasCore \<Rightarrow> int \<Rightarrow> int \<Rightarrow> CanvasCore" where
  "CanvasCore_moveLayer c fromIndex toIndex =
     (if fromIndex \<ge> 0 \<and> fromIndex < int (length (c_layers c)) \<and>
         toIndex \<ge> 0 \<and> toIndex < int (length (c_layers c))
      then (let layer = c_layers c ! nat fromIndex;
                erased = take (nat fromIndex) (c_layers c) @ drop (Suc (nat fromIndex)) (c_layers c)
            in c\<lparr>c_layers := take (nat toIndex) erased @ [layer] @ drop (nat toIndex) erased\<rparr>)
      else c)"

definition CanvasCore_getLayer :: "CanvasCore \<Rightarrow> int \<Rightarrow> Layer option" where
  "CanvasCore_getLayer c index =
     (if index \<ge> 0 \<and> index < int (length (c_layers c)) then Some (c_layers c ! nat index)
      else None)"

definition CanvasCore_beginStroke :: "CanvasCore \<Rightarrow> int \<Rightarrow> CanvasCore" where
  \<comment> \<open>the second argument is the clock reading that \<open>pushState\<close> takes\<close>
  "CanvasCore_beginStroke c now =
     (let snapshots = map (\<lambda>layer. TileGrid_copy (l_pixels layer)) (c_layers c)
      in c\<lparr>c_undoStack := UndoStack_pushState (c_undoStack c) snapshots ''Brush Stroke'' now\<rparr>)"

definition CanvasCore_endStroke :: "CanvasCore \<Rightarrow> CanvasCore" where
  "CanvasCore_endStroke c = c"

definition restore_layers :: "Layer list \<Rightarrow> TileGrid list \<Rightarrow> Layer list" where
  \<comment> \<open>\<open>for (size_t i = 0; i < layers_.size() && i < snapshots.size(); ++i)
        layers_[i]->getPixels() = *snapshots[i];\<close>\<close>
  "restore_layers layers snapshots =
     map (\<lambda>i. if i < length snapshots
              then (layers ! i)\<lparr>l_pixels := TileGrid_assign (l_pixels (layers ! i)) (snapshots ! i)\<rparr>
              else layers ! i)
       [0..<length layers]"

definition CanvasCore_canUndo :: "CanvasCore \<Rightarrow> bool" where
  "CanvasCore_canUndo c = UndoStack_canUndo (c_undoStack c)"

definition CanvasCore_canRedo :: "CanvasCore \<Rightarrow> bool" where
  "CanvasCore_canRedo c = UndoStack_canRedo (c_undoStack c)"

definition CanvasCore_undo :: "CanvasCore \<Rightarrow> fault + CanvasCore" where
  "CanvasCore_undo c =
     (if UndoStack_canUndo (c_undoStack c)
      then (case UndoStack_popState (c_undoStack c) of
              Inl e \<Rightarrow> Inl e
            | Inr (snapshots, us) \<Rightarrow>
                Inr (c\<lparr>c_undoStack := us, c_layers := restore_layers (c_layers c) snapshots\<rparr>))
      else Inr c)"

definition CanvasCore_redo :: "CanvasCore \<Rightarrow> fault + CanvasCore" where
  "CanvasCore_redo c =
     (if UndoStack_canRedo (c_undoStack c)
      then (case UndoStack_redoState (c_undoStack c) of
              Inl e \<Rightarrow> Inl e
            | Inr (snapshots, us) \<Rightarrow>
                Inr (c\<lparr>c_undoStack := us, c_layers := restore_layers (c_layers c) snapshots\<rparr>))
      else Inr c)"

definition CanvasCore_setSelection :: "CanvasCore \<Rightarrow> (int \<times> int) list \<Rightarrow> CanvasCore" where
  "CanvasCore_setSelection c points = c\<lparr>c_selection := points\<rparr>"

definition CanvasCore_clearSelection :: "CanvasCore \<Rightarrow> CanvasCore" where
  "CanvasCore_clearSelection c = c\<lparr>c_selection := []\<rparr>"

definition CanvasCore_hasSelection :: "CanvasCore \<Rightarrow> bool" where
  "CanvasCore_hasSelection c \<longleftrightarrow> c_selection c \<noteq> []"

definition CanvasCore_applyFilter ::
    "CanvasCore \<Rightarrow> int \<Rightarrow> string \<Rightarrow> (string \<rightharpoonup> real) \<Rightarrow> CanvasCore" where
  "CanvasCore_applyFilter c layerIndex filterType params =
     (if layerIndex < 0 \<or> layerIndex \<ge> int (length (c_layers c)) then c
      else c\<lparr>c_layers := (c_layers c)[nat layerIndex :=
               Layer_addAdjustment (c_layers c ! nat layerIndex) filterType params]\<rparr>)"

subsection \<open>The brush and eraser kernels\<close>

text \<open>
  The floating-point expressions of the two kernels are parameters of the model, one field
  for each expression of the source:
  \<^item> \<open>fp_radius bsize\<close> is \<open>static_cast<int>(size / 2.0f)\<close>;
  \<^item> \<open>fp_in_disk dx dy radius\<close> is \<open>std::sqrt(dx * dx + dy * dy) <= radius\<close>;
  \<^item> \<open>fp_alpha dx dy radius opacity\<close> is \<open>(1.0f - distance / radius) * opacity\<close>;
  \<^item> \<open>fp_mix d c alpha\<close> is \<open>static_cast<uint16_t>(d * (1 - alpha) + c * alpha)\<close>;
  \<^item> \<open>fp_fade d alpha\<close> is \<open>static_cast<uint16_t>(d * (1 - alpha))\<close>.
  Every statement about the kernels below holds for all values of these parameters.
\<close>

record kernel_fp =
  fp_radius :: "real \<Rightarrow> int"
  fp_in_disk :: "int \<Rightarrow> int \<Rightarrow> int \<Rightarrow> bool"
  fp_alpha :: "int \<Rightarrow> int \<Rightarrow> int \<Rightarrow> real \<Rightarrow> real"
  fp_mix :: "u16 \<Rightarrow> u16 \<Rightarrow> real \<Rightarrow> u16"
  fp_fade :: "u16 \<Rightarrow> real \<Rightarrow> u16"

definition brush_blend :: "kernel_fp \<Rightarrow> Pixel \<Rightarrow> real \<Rightarrow> Pixel \<Rightarrow> Pixel" where
  \<comment> \<open>the four assignments to \<open>dest\<close> in \<open>drawBrushStroke\<close>\<close>
  "brush_blend fp color alpha dest =
     \<lparr>px_r = fp_mix fp (px_r dest) (px_r color) alpha,
      px_g = fp_mix fp (px_g dest) (px_g color) alpha,
      px_b = fp_mix fp (px_b dest) (px_b color) alpha,
      px_a = fp_mix fp (px_a dest) (px_a color) alpha\<rparr>"

definition eraser_blend :: "kernel_fp \<Rightarrow> real \<Rightarrow> Pixel \<Rightarrow> Pixel" where
  \<comment> \<open>the assignment to \<open>dest.a\<close> in \<open>eraseBrushStroke\<close>\<close>
  "eraser_blend fp alpha dest = dest\<lparr>px_a := fp_fade fp (px_a dest) alpha\<rparr>"

definition stamp_pixel ::
    "kernel_fp \<Rightarrow> (real \<Rightarrow> Pixel \<Rightarrow> Pixel) \<Rightarrow> int \<Rightarrow> int \<Rightarrow> real \<Rightarrow> int \<Rightarrow> int \<Rightarrow> int \<Rightarrow> int
       \<Rightarrow> statics \<times> TileGrid \<Rightarrow> int \<Rightarrow> statics \<times> TileGrid" where
  \<comment> \<open>the body of the innermost loop, which the two kernels share but for the assignment
      through \<open>dest\<close> (the parameter \<open>blend\<close>)\<close>
  "stamp_pixel fp blend width height opacity radius x y dy w dx =
     (let px = x + dx; py = y + dy
      in if px \<ge> 0 \<and> px < width \<and> py \<ge> 0 \<and> py < height
         then (if fp_in_disk fp dx dy radius
               then (let alpha = fp_alpha fp dx dy radius opacity;
                         (dest, w') = TileGrid_getPixel_mut w px py
                     in pixel_write dest (blend alpha (pixel_read w' dest)) w')
               else w)
         else w)"

definition stamp_point ::
    "kernel_fp \<Rightarrow> (real \<Rightarrow> Pixel \<Rightarrow> Pixel) \<Rightarrow> int \<Rightarrow> int \<Rightarrow> real \<Rightarrow> real
       \<Rightarrow> statics \<times> TileGrid \<Rightarrow> int \<times> int \<Rightarrow> statics \<times> TileGrid" where
  \<comment> \<open>the body of the loop over the points\<close>
  "stamp_point fp blend width height bsize opacity w point =
     (let x = fst point; y = snd point; radius = fp_radius fp bsize
      in foldl (\<lambda>w dy. foldl (stamp_pixel fp blend width height opacity radius x y dy) w
                          [- radius..radius])
           w [- radius..radius])"

definition CanvasCore_drawBrushStroke ::
    "kernel_fp \<Rightarrow> statics \<times> CanvasCore \<Rightarrow> int \<Rightarrow> (int \<times> int) list \<Rightarrow> real \<Rightarrow> real \<Rightarrow> Pixel
       \<Rightarrow> statics \<times> CanvasCore" where
  "CanvasCore_drawBrushStroke fp sc layerIndex points bsize opacity color =
     (let c = snd sc
      in if layerIndex < 0 \<or> layerIndex \<ge> int (length (c_layers c)) then sc
         else (let layer = c_layers c ! nat layerIndex;
                   w = foldl (stamp_point fp (brush_blend fp color) (c_width c) (c_height c)
                                bsize opacity)
                         (fst sc, l_pixels layer) points
               in (fst w, c\<lparr>c_layers := (c_layers c)[nat layerIndex :=
                                layer\<lparr>l_pixels := snd w\<rparr>]\<rparr>)))"

definition CanvasCore_eraseBrushStroke ::
    "kernel_fp \<Rightarrow> statics \<times> CanvasCore \<Rightarrow> int \<Rightarrow> (int \<times> int) list \<Rightarrow> real \<Rightarrow> real
       \<Rightarrow> statics \<times> CanvasCore" where
  "CanvasCore_eraseBrushStroke fp sc layerIndex points bsize opacity =
     (let c = snd sc
      in if layerIndex < 0 \<or> layerIndex \<ge> int (length (c_layers c)) then sc
         else (let layer = c_layers c ! nat layerIndex;
                   w = foldl (stamp_point fp (eraser_blend fp) (c_width c) (c_height c)
                                bsize opacity)
                         (fst sc, l_pixels layer) points
               in (fst w, c\<lparr>c_layers := (c_layers c)[nat layerIndex :=
                                layer\<lparr>l_pixels := snd w\<rparr>]\<rparr>)))"

text \<open>A stroke is a sequence of calls of the two kernels.\<close>

datatype kernel_call =
    DrawBrush int "(int \<times> int) list" real real Pixel
  | EraseBrush int "(int \<times> int) list" real real

fun run_kernel :: "kernel_fp \<Rightarrow> statics \<times> CanvasCore \<Rightarrow> kernel_call \<Rightarrow> statics \<times> CanvasCore" where
  "run_kernel fp sc (DrawBrush layerIndex points bsize opacity color) =
     CanvasCore_drawBrushStroke fp sc layerIndex points bsize opacity color"
| "run_kernel fp sc (EraseBrush layerIndex points bsize opacity) =
     CanvasCore_eraseBrushStroke fp sc layerIndex points bsize opacity"

definition run_kernels ::
    "kernel_fp \<Rightarrow> statics \<times> CanvasCore \<Rightarrow> kernel_call list \<Rightarrow> statics \<times> CanvasCore" where
  "run_kernels fp sc calls = foldl (run_kernel fp) sc calls"


subsection \<open>Blending\<close>

text \<open>
  \<open>blendPixels\<close> computes in \<open>float\<close>. Here the arithmetic is modelled: a \<open>float\<close> is
  the real number it denotes, and every operation returns the exact result rounded to
  binary32, to the nearest value and to the even one of two nearest (IEEE 754, each
  operation rounded once). \<open>binade x\<close> is the exponent of \<open>x\<close>, and the spacing of the
  binary32 values around \<open>x\<close> is \<open>2 ^ (binade x - 23)\<close>, or \<open>2 ^ (- 149)\<close> for a
  subnormal \<open>x\<close>. Overflow to infinity and NaN are not modelled: no operand of
  \<open>blendPixels\<close> exceeds 65535 when the opacity is within \<open>[0, 1]\<close>.
\<close>

definition round_even :: "real \<Rightarrow> int" where
  "round_even x =
     (let n = \<lfloor>x\<rfloor>
      in if x - of_int n < 1 / 2 then n
         else if 1 / 2 < x - of_int n then n + 1
         else if even n then n else n + 1)"

definition binade :: "real \<Rightarrow> int" where
  "binade x = \<lfloor>log 2 \<bar>x\<bar>\<rfloor>"

definition f32 :: "real \<Rightarrow> real" where
  "f32 x =
     (if x = 0 then 0
      else (let u = 2 powi (max (binade x) (- 126) - 23)
            in of_int (round_even (x / u)) * u))"

definition fadd :: "real \<Rightarrow> real \<Rightarrow> real" where
  "fadd x y = f32 (x + y)"

definition fsub :: "real \<Rightarrow> real \<Rightarrow> real" where
  "fsub x y = f32 (x - y)"

definition fmul :: "real \<Rightarrow> real \<Rightarrow> real" where
  "fmul x y = f32 (x * y)"

definition fdiv :: "real \<Rightarrow> real \<Rightarrow> real" where
  "fdiv x y = f32 (x / y)"

definition of_u16 :: "u16 \<Rightarrow> real" where
  \<comment> \<open>the conversion of a \<open>uint16_t\<close> operand to \<open>float\<close>, which is exact\<close>
  "of_u16 v = of_int (uint v)"

definition to_u16 :: "real \<Rightarrow> fault + u16" where
  \<comment> \<open>\<open>static_cast<uint16_t>\<close> of a \<open>float\<close>: the value is truncated towards zero, and the
      behaviour is undefined when the truncated value is not a \<open>uint16_t\<close>\<close>
  "to_u16 x =
     (if - 1 < x \<and> x < 65536 then Inr (word_of_int (if 0 \<le> x then \<lfloor>x\<rfloor> else \<lceil>x\<rceil>))
      else Inl ConversionOverflow)"

definition blend_channel :: "BlendMode \<Rightarrow> real \<Rightarrow> real \<Rightarrow> real" where
  \<comment> \<open>the \<open>switch\<close> of \<open>blendPixels\<close>, for one channel: \<open>d\<close> is the destination, \<open>s\<close> the
      source\<close>
  "blend_channel mode d s =
     (case mode of
        Normal \<Rightarrow> s
      | Multiply \<Rightarrow> fmul d s
      | Screen \<Rightarrow> fsub 1 (fmul (fsub 1 d) (fsub 1 s))
      | Overlay \<Rightarrow>
          (if d < 1 / 2 then fmul (fmul 2 d) s
           else fsub 1 (fmul (fmul 2 (fsub 1 d)) (fsub 1 s)))
      | _ \<Rightarrow> s)"

definition blend_out :: "real \<Rightarrow> real \<Rightarrow> real \<Rightarrow> real \<Rightarrow> real \<Rightarrow> fault + u16" where
  \<comment> \<open>\<open>static_cast<uint16_t>((result * srcAlpha + dest * destAlpha * (1.0f - srcAlpha))
        / finalAlpha * 65535.0f)\<close>\<close>
  "blend_out result d srcAlpha destAlpha finalAlpha =
     to_u16 (fmul (fdiv (fadd (fmul result srcAlpha)
                              (fmul (fmul d destAlpha) (fsub 1 srcAlpha)))
                        finalAlpha)
                  65535)"

definition CanvasCore_blendPixels :: "Pixel \<Rightarrow> Pixel \<Rightarrow> BlendMode \<Rightarrow> real \<Rightarrow> fault + Pixel" where
  \<comment> \<open>the new value of \<open>dest\<close>\<close>
  "CanvasCore_blendPixels dest src mode opacity =
     (let srcAlpha = fmul (fdiv (of_u16 (px_a src)) 65535) opacity;
          destAlpha = fdiv (of_u16 (px_a dest)) 65535
      in if srcAlpha \<le> 0 then Inr dest
         else (let srcR = fdiv (of_u16 (px_r src)) 65535;
                   srcG = fdiv (of_u16 (px_g src)) 65535;
                   srcB = fdiv (of_u16 (px_b src)) 65535;
                   destR = fdiv (of_u16 (px_r dest)) 65535;
                   destG = fdiv (of_u16 (px_g dest)) 65535;
                   destB = fdiv (of_u16 (px_b dest)) 65535;
                   resultR = blend_channel mode destR srcR;
                   resultG = blend_channel mode destG srcG;
                   resultB = blend_channel mode destB srcB;
                   finalAlpha = fadd srcAlpha (fmul destAlpha (fsub 1 srcAlpha))
               in if finalAlpha > 0
                  then (case blend_out resultR destR srcAlpha destAlpha finalAlpha of
                          Inl e \<Rightarrow> Inl e
                        | Inr r' \<Rightarrow>
                       (case blend_out resultG destG srcAlpha destAlpha finalAlpha of
                          Inl e \<Rightarrow> Inl e
                        | Inr g' \<Rightarrow>
                       (case blend_out resultB destB srcAlpha destAlpha finalAlpha of
                          Inl e \<Rightarrow> Inl e
                        | Inr b' \<Rightarrow>
                       (case to_u16 (fmul finalAlpha 65535) of
                          Inl e \<Rightarrow> Inl e
                        | Inr a' \<Rightarrow>
                            Inr \<lparr>px_r = r', px_g = g', px_b = b', px_a = a'\<rparr>))))
                  else Inr dest))"

section \<open>Filter plugins (plugin\_interface.h and the four plugins)\<close>





definition tile_count :: "int \<Rightarrow> int" where
  \<comment> \<open>\<open>(w + Tile::TILE_SIZE - 1) / Tile::TILE_SIZE\<close>\<close>
  "tile_count w = (w + TILE_SIZE - 1) sdiv TILE_SIZE"








subsection \<open>Gaussian blur\<close>



subsection \<open>Unsharp mask\<close>


subsection \<open>Inpaint\<close>


subsection \<open>Smudge\<close>




section \<open>Invariants\<close>

text \<open>
  What every \<open>TileGrid\<close> object satisfies: the constructor establishes it and no member
  function changes the tile counts, the number of tiles or the size of a tile's buffer.
\<close>

definition grid_wf :: "TileGrid \<Rightarrow> bool" where
  "grid_wf gr \<longleftrightarrow> length (g_tiles gr) = nat (g_tileCountX gr) * nat (g_tileCountY gr)"

definition grid_inv :: "TileGrid \<Rightarrow> bool" where
  "grid_inv gr \<longleftrightarrow>
     grid_wf gr \<and>
     g_tileCountX gr = tile_count (g_width gr) \<and>
     g_tileCountY gr = tile_count (g_height gr) \<and>
     (\<forall>t \<in> set (g_tiles gr). length (t_pixels t) = nat (TILE_SIZE * TILE_SIZE))"

text \<open>
  Where a pixel of a grid is kept: the pixel \<open>(x, y)\<close> of the area that the tiles of
  the grid cover is the element \<open>local_index x y\<close> of the buffer of the tile
  \<open>tile_index gr x y\<close>.
\<close>

definition covered :: "TileGrid \<Rightarrow> int \<Rightarrow> int \<Rightarrow> bool" where
  "covered gr x y \<longleftrightarrow>
     0 \<le> x \<and> x < TILE_SIZE * g_tileCountX gr \<and> 0 \<le> y \<and> y < TILE_SIZE * g_tileCountY gr"

definition tile_index :: "TileGrid \<Rightarrow> int \<Rightarrow> int \<Rightarrow> nat" where
  "tile_index gr x y = nat ((y sdiv TILE_SIZE) * g_tileCountX gr + x sdiv TILE_SIZE)"

definition local_index :: "int \<Rightarrow> int \<Rightarrow> nat" where
  "local_index x y = nat ((y smod TILE_SIZE) * TILE_SIZE + x smod TILE_SIZE)"

definition same_shape :: "TileGrid \<Rightarrow> TileGrid \<Rightarrow> bool" where
  \<comment> \<open>two grids with the same dimensions and the same tile counts\<close>
  "same_shape h h' \<longleftrightarrow>
     g_width h' = g_width h \<and> g_height h' = g_height h \<and>
     g_tileCountX h' = g_tileCountX h \<and> g_tileCountY h' = g_tileCountY h"

text \<open>
  What every \<open>CanvasCore\<close> object satisfies. The undo stack is private to the canvas and
  built with the default capacity, which the canvas never changes.
\<close>

definition stack_inv :: "UndoStack \<Rightarrow> bool" where
  "stack_inv us \<longleftrightarrow>
     u_maxStates us = 50 \<and>
     u_currentIndex us \<le> length (u_states us) \<and>
     length (u_states us) \<le> 50 \<and>
     (\<forall>st \<in> set (u_states us). \<forall>gr \<in> set (layerSnapshots st). grid_wf gr)"

definition canvas_inv :: "CanvasCore \<Rightarrow> bool" where
  "canvas_inv c \<longleftrightarrow>
     stack_inv (c_undoStack c) \<and> (\<forall>layer \<in> set (c_layers c). grid_wf (l_pixels layer))"

definition restored_from :: "CanvasCore \<Rightarrow> TileGrid list \<Rightarrow> CanvasCore \<Rightarrow> bool" where
  \<comment> \<open>\<open>c'\<close> is \<open>c\<close> with copies of the grids \<open>snapshots\<close> in the layers that have one,
      and nothing else of the layer list changed\<close>
  "restored_from c snapshots c' \<longleftrightarrow>
     length (c_layers c') = length (c_layers c) \<and>
     (\<forall>i < length (c_layers c).
        c_layers c' ! i =
          (c_layers c ! i)\<lparr>l_pixels :=
             (if i < length snapshots then TileGrid_copy (snapshots ! i)
              else l_pixels (c_layers c ! i))\<rparr>)"


section \<open>Test data\<close>

definition white :: Pixel where
  "white = \<lparr>px_r = 65535, px_g = 65535, px_b = 65535, px_a = 65535\<rparr>"

definition grid_1x1 :: TileGrid where
  \<comment> \<open>the value of \<open>TileGrid(1, 1)\<close>\<close>
  "grid_1x1 = \<lparr>g_tiles = [Tile_ctor 0 0], g_width = 1, g_height = 1,
               g_tileCountX = 1, g_tileCountY = 1\<rparr>"


definition background_1x1 :: Layer where
  "background_1x1 = \<lparr>l_name = ''Background'', l_pixels = grid_1x1, l_opacity = 1,
                     l_blendMode = Normal, l_visible = True, l_clipMask = None,
                     l_adjustments = []\<rparr>"

definition canvas_1x1 :: CanvasCore where
  \<comment> \<open>the value of \<open>CanvasCore(1, 1)\<close>\<close>
  "canvas_1x1 = \<lparr>c_width = 1, c_height = 1, c_layers = [background_1x1], c_selection = [],
                 c_undoStack = UndoStack_ctor 50\<rparr>"

definition exact_fp :: kernel_fp where
  \<comment> \<open>the float expressions of the kernels computed without rounding; this is what
      binary32 arithmetic gives at the weights 0 and 1, the only ones used with it below\<close>
  "exact_fp =
     \<lparr>fp_radius = (\<lambda>bsize. \<lfloor>bsize / 2\<rfloor>),
      fp_in_disk = (\<lambda>dx dy radius. dx * dx + dy * dy \<le> radius * radius),
      fp_alpha = (\<lambda>dx dy radius opacity.
                    (1 - sqrt (real_of_int (dx * dx + dy * dy)) / real_of_int radius) * opacity),
      fp_mix = (\<lambda>d c alpha. word_of_int \<lfloor>real_of_int (uint d) * (1 - alpha)
                                          + real_of_int (uint c) * alpha\<rfloor>),
      fp_fade = (\<lambda>d alpha. word_of_int \<lfloor>real_of_int (uint d) * (1 - alpha)\<rfloor>)\<rparr>"

definition white_dot :: kernel_call where
  \<comment> \<open>scenario S4: \<open>draw_brush_stroke(0, [(0, 0)], 2, 1.0, white)\<close>\<close>
  "white_dot = DrawBrush 0 [(0, 0)] 2 1 white"

definition snapshot_1x1 :: UndoState where
  \<comment> \<open>what \<open>begin_stroke\<close> pushes on the canvas \<open>canvas_1x1\<close> at time 0\<close>
  "snapshot_1x1 = \<lparr>layerSnapshots = [grid_1x1], description = ''Brush Stroke'', timestamp = 0\<rparr>"

definition painted_1x1 :: Layer where
  "painted_1x1 = background_1x1\<lparr>l_pixels := TileGrid_fill grid_1x1 white\<rparr>"

definition canvas_undoable :: CanvasCore where
  \<comment> \<open>one recorded stroke: one state, the index behind it\<close>
  "canvas_undoable =
     canvas_1x1\<lparr>c_layers := [painted_1x1],
       c_undoStack := \<lparr>u_states = [snapshot_1x1], u_currentIndex = 1, u_maxStates = 50\<rparr>\<rparr>"

definition canvas_redoable :: CanvasCore where
  \<comment> \<open>two recorded strokes, both undone: two states, the index at the first\<close>
  "canvas_redoable =
     canvas_1x1\<lparr>c_layers := [painted_1x1],
       c_undoStack := \<lparr>u_states = [snapshot_1x1, snapshot_1x1], u_currentIndex = 0,
                       u_maxStates = 50\<rparr>\<rparr>"










section \<open>Basic facts\<close>

lemma sdiv_nonneg: "0 \<le> x \<Longrightarrow> 0 < n \<Longrightarrow> x sdiv n = x div (n::int)"
  by (simp add: signed_divide_int_def sgn_if)

lemma smod_nonneg: "0 \<le> x \<Longrightarrow> 0 < n \<Longrightarrow> x smod n = x mod (n::int)"
  by (simp add: signed_modulo_int_def sgn_if)

lemma tile_count_nonneg: "0 \<le> W \<Longrightarrow> 0 \<le> tile_count W"
  by (simp add: tile_count_def TILE_SIZE_def sdiv_nonneg pos_imp_zdiv_nonneg_iff)

lemma TileGrid_ctor_1x1: "TileGrid_ctor 1 1 = Inr grid_1x1"
  by (simp add: TileGrid_ctor_def grid_1x1_def TILE_SIZE_def Let_def)

lemma CanvasCore_ctor_1x1: "CanvasCore_ctor 1 1 = Inr canvas_1x1"
  by (simp add: CanvasCore_ctor_def CanvasCore_addLayer_def Layer_ctor_def TileGrid_ctor_1x1
      canvas_1x1_def background_1x1_def)

text \<open>The constructor of a grid returns for all dimensions that are not negative.\<close>

lemma TileGrid_ctor_total:
  assumes "0 \<le> W" "0 \<le> H"
  shows "\<exists>gr. TileGrid_ctor W H = Inr gr"
proof -
  have "0 \<le> tile_count W * tile_count H"
    using assms by (simp add: tile_count_nonneg)
  then show ?thesis
    by (simp add: TileGrid_ctor_def Let_def tile_count_def not_less [symmetric])
qed

lemma TileGrid_ctor_fresh:
  assumes "TileGrid_ctor W H = Inr gr"
  shows "\<forall>t \<in> set (g_tiles gr). t_pixels t = replicate 65536 Pixel_default \<and> \<not> t_dirty t"
  using assms
  by (auto simp: TileGrid_ctor_def Let_def Tile_ctor_def TILE_SIZE_def split: if_splits)

section \<open>Tile arithmetic\<close>

text \<open>
  C4. The claim is that \<open>+=\<close>, \<open>-=\<close> and \<open>*=\<close> saturate each channel into
  \<open>[0, 65535]\<close> and never wrap, so that 40000 + 40000 gives 65535 and 10000 - 20000
  gives 0. The code reduces the sum and the difference modulo \<open>2 ^ 16\<close> before it takes
  the minimum or the maximum: on two tiles filled with red 40000 the operator \<open>+=\<close>
  leaves red 14464, and red 10000 minus red 20000 leaves red 55536.
\<close>

theorem Tile_arith_wraps:
  "px_r (t_pixels (Tile_add_assign
       (Tile_fill (Tile_ctor 0 0) \<lparr>px_r = 40000, px_g = 0, px_b = 0, px_a = 0\<rparr>)
       (Tile_fill (Tile_ctor 0 0) \<lparr>px_r = 40000, px_g = 0, px_b = 0, px_a = 0\<rparr>)) ! 0) = 14464
   \<and> px_r (t_pixels (Tile_sub_assign
       (Tile_fill (Tile_ctor 0 0) \<lparr>px_r = 10000, px_g = 0, px_b = 0, px_a = 0\<rparr>)
       (Tile_fill (Tile_ctor 0 0) \<lparr>px_r = 20000, px_g = 0, px_b = 0, px_a = 0\<rparr>)) ! 0) = 55536"
  by (simp add: Tile_add_assign_def Tile_sub_assign_def Tile_fill_def Tile_ctor_def TILE_SIZE_def
      Pixel_add_def Pixel_sub_def add_channel_def sub_channel_def)

section \<open>The undo stack\<close>

text \<open>
  C2. The claim is that \<open>canRedo\<close> holds exactly when \<open>currentIndex < states.length\<close>.
  The code compares with \<open>states_.size() - 1\<close> in \<open>size_t\<close>. On the empty stack the
  difference wraps, \<open>canRedo\<close> is true and \<open>redoState\<close> indexes the empty vector. After
  one push and one pop the index is 0 and there is one state, the one that a redo would
  return, and \<open>canRedo\<close> is false.
\<close>

theorem canRedo_off_by_one:
  "UndoStack_canRedo (UndoStack_ctor 50) \<and>
   UndoStack_redoState (UndoStack_ctor 50) = Inl OutOfRange \<and>
   (\<exists>us. UndoStack_popState (UndoStack_pushState (UndoStack_ctor 50) [] ''A'' 0) = Inr ([], us) \<and>
      u_currentIndex us = 0 \<and> length (u_states us) = 1 \<and> \<not> UndoStack_canRedo us)"
  by (simp add: UndoStack_canRedo_def UndoStack_ctor_def UndoStack_redoState_def SIZE_MOD_def
      UndoStack_pushState_def UndoStack_trimStates_def UndoStack_popState_def
      UndoStack_canUndo_def Let_def)

section \<open>Resizing the canvas\<close>

lemma resize_layers_eq:
  "TileGrid_ctor W H = Inr gr \<Longrightarrow>
   resize_layers ls W H = Inr (map (\<lambda>l. \<lparr>l_name = l_name l, l_pixels = gr, l_opacity = 1,
       l_blendMode = Normal, l_visible = True, l_clipMask = None, l_adjustments = []\<rparr>) ls)"
  by (induction ls) (simp_all add: Layer_ctor_def)

text \<open>
  C9. Whenever a grid of the new size can be built, \<open>resize\<close> replaces every layer by a
  fresh one that has the name of the old layer and nothing else of it: the opacity is 1,
  the blend mode Normal, the layer visible, the clip mask null and the adjustment stack
  empty, and the pixels are those of a new grid, all of them the default pixel.
\<close>

theorem resize_fresh_layers:
  assumes "TileGrid_ctor W H = Inr gr"
  shows "CanvasCore_resize c W H =
           Inr (c\<lparr>c_width := W, c_height := H,
                  c_layers := map (\<lambda>l. \<lparr>l_name = l_name l, l_pixels = gr, l_opacity = 1,
                     l_blendMode = Normal, l_visible = True, l_clipMask = None,
                     l_adjustments = []\<rparr>) (c_layers c)\<rparr>)
         \<and> (\<forall>t \<in> set (g_tiles gr). t_pixels t = replicate 65536 Pixel_default \<and> \<not> t_dirty t)"
  using TileGrid_ctor_fresh [OF assms] resize_layers_eq [OF assms]
  by (simp add: CanvasCore_resize_def)

theorem resize_fresh_layers_witness:
  "TileGrid_ctor 1 1 = Inr grid_1x1 \<and>
   CanvasCore_resize
     (canvas_1x1\<lparr>c_layers := [background_1x1\<lparr>l_opacity := 1 / 2, l_visible := False\<rparr>]\<rparr>) 1 1
     = Inr canvas_1x1"
  using resize_fresh_layers [OF TileGrid_ctor_1x1,
      of "canvas_1x1\<lparr>c_layers := [background_1x1\<lparr>l_opacity := 1 / 2, l_visible := False\<rparr>]\<rparr>"]
  by (simp add: TileGrid_ctor_1x1 canvas_1x1_def background_1x1_def)


section \<open>Copies of grids and the history\<close>

lemma concat_rows:
  assumes "\<And>ty tx. ty < m \<Longrightarrow> tx < n \<Longrightarrow> g tx ty = f (ty * n + tx)"
  shows "concat (map (\<lambda>ty. map (\<lambda>tx. g tx ty) [0..<n]) [0..<m]) = map f [0..<m * n]"
  using assms
proof (induction m)
  case 0
  show ?case by simp
next
  case (Suc m)
  have row: "map (\<lambda>tx. g tx m) [0..<n] = map f [m * n..<m * n + n]"
    by (rule nth_equalityI) (simp_all add: Suc.prems)
  have "map f [0..<Suc m * n] = map f [0..<m * n] @ map f [m * n..<m * n + n]"
    by (metis add.commute map_append mult_Suc upt_add_eq_append zero_le)
  with row Suc show ?case by simp
qed

lemma TileGrid_copy_id:
  assumes "grid_wf gr"
  shows "TileGrid_copy gr = gr"
proof -
  define n where "n = nat (g_tileCountX gr)"
  define m where "m = nat (g_tileCountY gr)"
  have len: "length (g_tiles gr) = m * n"
    using assms by (simp add: grid_wf_def n_def m_def mult.commute)
  have cell: "TileGrid_getTile gr (int tx) (int ty) = g_tiles gr ! (ty * n + tx)"
    if "ty < m" "tx < n" for ty tx
  proof -
    have "int tx < g_tileCountX gr" "int ty < g_tileCountY gr"
      using that by (simp_all add: n_def m_def)
    moreover have "nat (int ty * g_tileCountX gr + int tx) = ty * n + tx"
      using that by (simp add: n_def nat_add_distrib nat_mult_distrib)
    ultimately show ?thesis
      by (simp add: TileGrid_getTile_def tile_out_of_range_def)
  qed
  have "concat (map (\<lambda>ty. map (\<lambda>tx. TileGrid_getTile gr (int tx) (int ty)) [0..<n]) [0..<m])
          = map ((!) (g_tiles gr)) [0..<m * n]"
    by (rule concat_rows) (rule cell)
  also have "\<dots> = g_tiles gr"
    using len by (metis map_nth)
  finally show ?thesis
    by (simp add: TileGrid_copy_def n_def m_def)
qed

lemma map_copy_id: "\<forall>gr \<in> set grs. grid_wf gr \<Longrightarrow> map TileGrid_copy grs = grs"
  by (induction grs) (simp_all add: TileGrid_copy_id)

text \<open>pushState on a stack that satisfies the invariant\<close>

lemma pushState_props:
  fixes us :: UndoStack and snaps :: "TileGrid list" and d :: string and now :: int
  assumes "stack_inv us" "\<forall>gr \<in> set snaps. grid_wf gr"
  defines "us' \<equiv> UndoStack_pushState us snaps d now"
  shows "stack_inv us'"
    and "u_currentIndex us' = length (u_states us')"
    and "u_states us' \<noteq> []"
    and "layerSnapshots (last (u_states us')) = snaps"
proof -
  let ?st = "\<lparr>layerSnapshots = snaps, description = d, timestamp = now\<rparr>"
  let ?pre = "take (u_currentIndex us) (u_states us)"
  have inv: "u_maxStates us = 50" "u_currentIndex us \<le> length (u_states us)"
      "length (u_states us) \<le> 50"
      "\<forall>st \<in> set (u_states us). \<forall>gr \<in> set (layerSnapshots st). grid_wf gr"
    using assms(1) by (simp_all add: stack_inv_def)
  have copy: "map TileGrid_copy snaps = snaps"
    using assms(2) by (rule map_copy_id)
  have len_pre: "length ?pre = u_currentIndex us"
    using inv(2) by simp
  have pre_wf: "\<forall>st \<in> set ?pre. \<forall>gr \<in> set (layerSnapshots st). grid_wf gr"
    using inv(4) by (meson in_set_takeD)
  have us'_eq: "us' = UndoStack_trimStates
      (us\<lparr>u_states := ?pre @ [?st], u_currentIndex := u_currentIndex us + 1\<rparr>)"
    using inv(2) by (simp add: us'_def UndoStack_pushState_def Let_def copy)
  show "stack_inv us'" "u_currentIndex us' = length (u_states us')" "u_states us' \<noteq> []"
    "layerSnapshots (last (u_states us')) = snaps"
  proof -
    consider (small) "u_currentIndex us < 50" | (full) "u_currentIndex us = 50"
      using inv(2,3) by linarith
    then have "stack_inv us' \<and> u_currentIndex us' = length (u_states us') \<and> u_states us' \<noteq> []
        \<and> layerSnapshots (last (u_states us')) = snaps"
    proof cases
      case small
      then have "us' = us\<lparr>u_states := ?pre @ [?st], u_currentIndex := u_currentIndex us + 1\<rparr>"
        using inv(1) len_pre by (simp add: us'_eq UndoStack_trimStates_def)
      then show ?thesis
        using inv(1) len_pre small pre_wf assms(2) by (auto simp: stack_inv_def)
    next
      case full
      then have "us' = us\<lparr>u_states := drop 1 (?pre @ [?st]), u_currentIndex := 50\<rparr>"
        using inv(1) len_pre by (simp add: us'_eq UndoStack_trimStates_def Let_def SIZE_MOD_def)
      moreover have "drop 1 (?pre @ [?st]) = drop 1 ?pre @ [?st]"
        using len_pre full by simp
      moreover have "length (drop 1 ?pre) = 49"
        using len_pre full by simp
      moreover have "\<forall>st \<in> set (drop 1 ?pre). \<forall>gr \<in> set (layerSnapshots st). grid_wf gr"
        using pre_wf by (meson in_set_dropD)
      ultimately show ?thesis
        using inv(1) assms(2) by (auto simp: stack_inv_def)
    qed
    then show "stack_inv us'" "u_currentIndex us' = length (u_states us')" "u_states us' \<noteq> []"
      "layerSnapshots (last (u_states us')) = snaps" by simp_all
  qed
qed


text \<open>The kernels touch nothing but the pixel grid of one layer.\<close>

lemma drawBrushStroke_frame:
  "c_undoStack (snd (CanvasCore_drawBrushStroke fp sc li pts bs op col)) = c_undoStack (snd sc)"
  "length (c_layers (snd (CanvasCore_drawBrushStroke fp sc li pts bs op col)))
     = length (c_layers (snd sc))"
  by (simp_all add: CanvasCore_drawBrushStroke_def Let_def)

lemma eraseBrushStroke_frame:
  "c_undoStack (snd (CanvasCore_eraseBrushStroke fp sc li pts bs op)) = c_undoStack (snd sc)"
  "length (c_layers (snd (CanvasCore_eraseBrushStroke fp sc li pts bs op)))
     = length (c_layers (snd sc))"
  by (simp_all add: CanvasCore_eraseBrushStroke_def Let_def)

lemma run_kernel_frame:
  "c_undoStack (snd (run_kernel fp sc k)) = c_undoStack (snd sc)"
  "length (c_layers (snd (run_kernel fp sc k))) = length (c_layers (snd sc))"
  by (cases k; simp add: drawBrushStroke_frame eraseBrushStroke_frame)+

lemma run_kernels_frame:
  "c_undoStack (snd (run_kernels fp sc ks)) = c_undoStack (snd sc) \<and>
   length (c_layers (snd (run_kernels fp sc ks))) = length (c_layers (snd sc))"
  unfolding run_kernels_def
  by (induction ks arbitrary: sc) (simp_all add: run_kernel_frame)

lemma beginStroke_stack:
  fixes c :: CanvasCore and now :: int
  assumes "canvas_inv c"
  defines "us \<equiv> c_undoStack (CanvasCore_beginStroke c now)"
  shows "stack_inv us" "u_currentIndex us = length (u_states us)" "u_states us \<noteq> []"
    "layerSnapshots (last (u_states us)) = map l_pixels (c_layers c)"
proof -
  have wf: "\<forall>gr \<in> set (map l_pixels (c_layers c)). grid_wf gr"
    using assms(1) by (simp add: canvas_inv_def)
  have snaps: "map (\<lambda>layer. TileGrid_copy (l_pixels layer)) (c_layers c) = map l_pixels (c_layers c)"
    using wf by (simp add: TileGrid_copy_id)
  have us: "us = UndoStack_pushState (c_undoStack c) (map l_pixels (c_layers c)) ''Brush Stroke'' now"
    by (simp add: us_def CanvasCore_beginStroke_def snaps)
  have inv: "stack_inv (c_undoStack c)"
    using assms(1) by (simp add: canvas_inv_def)
  show "stack_inv us" "u_currentIndex us = length (u_states us)" "u_states us \<noteq> []"
    "layerSnapshots (last (u_states us)) = map l_pixels (c_layers c)"
    unfolding us by (rule pushState_props [OF inv wf])+
qed

lemma restore_layers_pixels:
  assumes "length snaps = length ls" "\<forall>gr \<in> set snaps. grid_wf gr"
  shows "map l_pixels (restore_layers ls snaps) = snaps"
  using assms
  by (intro nth_equalityI) (simp_all add: restore_layers_def TileGrid_assign_def TileGrid_copy_id)

text \<open>The state after begin, stroke and undo.\<close>

lemma undo_after_stroke:
  fixes c :: CanvasCore and now :: int and fp :: kernel_fp and s :: statics
    and ks :: "kernel_call list"
  assumes "canvas_inv c"
  defines "c2 \<equiv> snd (run_kernels fp (s, CanvasCore_beginStroke c now) ks)"
  shows "\<exists>c3. CanvasCore_undo c2 = Inr c3 \<and>
           map l_pixels (c_layers c3) = map l_pixels (c_layers c) \<and>
           Suc (u_currentIndex (c_undoStack c3)) = length (u_states (c_undoStack c3)) \<and>
           length (u_states (c_undoStack c3)) \<le> 50"
proof -
  let ?us = "c_undoStack (CanvasCore_beginStroke c now)"
  let ?snaps = "map l_pixels (c_layers c)"
  have st: "stack_inv ?us" "u_currentIndex ?us = length (u_states ?us)" "u_states ?us \<noteq> []"
    "layerSnapshots (last (u_states ?us)) = ?snaps"
    by (rule beginStroke_stack [OF assms(1)])+
  have wf: "\<forall>gr \<in> set ?snaps. grid_wf gr"
    using assms(1) by (simp add: canvas_inv_def)
  have frame: "c_undoStack c2 = ?us" "length (c_layers c2) = length (c_layers c)"
    using run_kernels_frame [of fp "(s, CanvasCore_beginStroke c now)" ks]
    by (simp_all add: c2_def CanvasCore_beginStroke_def)
  have "layerSnapshots (u_states ?us ! (length (u_states ?us) - 1)) = ?snaps"
    using st(3,4) by (simp add: last_conv_nth)
  then have "map TileGrid_copy (layerSnapshots (u_states ?us ! (length (u_states ?us) - 1)))
      = ?snaps"
    using wf by (simp only: map_copy_id)
  then have pop: "UndoStack_popState ?us
      = Inr (?snaps, ?us\<lparr>u_currentIndex := length (u_states ?us) - 1\<rparr>)"
    using st(2,3)
    by (simp add: UndoStack_popState_def UndoStack_canUndo_def Let_def del: One_nat_def)
  have can: "UndoStack_canUndo ?us"
    using st(2,3) by (simp add: UndoStack_canUndo_def)
  have undo: "CanvasCore_undo c2 = Inr (c2\<lparr>c_undoStack := ?us\<lparr>u_currentIndex := length (u_states ?us) - 1\<rparr>,
      c_layers := restore_layers (c_layers c2) ?snaps\<rparr>)"
    by (simp add: CanvasCore_undo_def frame(1) can pop)
  have "map l_pixels (restore_layers (c_layers c2) ?snaps) = ?snaps"
    by (rule restore_layers_pixels) (use frame(2) wf in simp_all)
  moreover have "length (u_states ?us) \<le> 50"
    using st(1) by (simp add: stack_inv_def)
  ultimately show ?thesis
    using undo st(3) by (simp add: Suc_diff_1 [symmetric] del: Suc_diff_1)
qed

text \<open>
  C1. On every canvas (one that satisfies the invariant of the class), after
  \<open>begin_stroke\<close> and any sequence of calls of the two kernels, \<open>undo\<close> returns
  and leaves in every layer the grid that the layer had before \<open>begin_stroke\<close>: the
  pixels, and the dirty flags with them. This holds for all values of the float
  expressions of the kernels and for every state of the two static dummies.
\<close>

theorem undo_restores_pre_stroke:
  assumes "canvas_inv c"
  shows "\<exists>c'. CanvasCore_undo (snd (run_kernels fp (s, CanvasCore_beginStroke c now) ks)) = Inr c' \<and>
           map l_pixels (c_layers c') = map l_pixels (c_layers c)"
  using undo_after_stroke [OF assms, of fp s now ks] by blast

lemma canvas_inv_1x1: "canvas_inv canvas_1x1"
  by (simp add: canvas_inv_def stack_inv_def canvas_1x1_def background_1x1_def grid_1x1_def
      grid_wf_def UndoStack_ctor_def)

theorem undo_restores_pre_stroke_witness:
  "canvas_inv canvas_1x1 \<and>
   (\<exists>c'. CanvasCore_undo (snd (run_kernels exact_fp
             (statics_init, CanvasCore_beginStroke canvas_1x1 0) [white_dot])) = Inr c' \<and>
      map l_pixels (c_layers c') = [grid_1x1])"
proof -
  have "map l_pixels (c_layers canvas_1x1) = [grid_1x1]"
    by (simp add: canvas_1x1_def background_1x1_def)
  then show ?thesis
    using undo_restores_pre_stroke [OF canvas_inv_1x1, of exact_fp statics_init 0 "[white_dot]"]
    by (simp add: canvas_inv_1x1)
qed

text \<open>redo after that undo does nothing\<close>

lemma redo_after_undo_noop:
  assumes "Suc (u_currentIndex (c_undoStack c3)) = length (u_states (c_undoStack c3))"
      "length (u_states (c_undoStack c3)) \<le> 50"
  shows "\<not> CanvasCore_canRedo c3" "CanvasCore_redo c3 = Inr c3"
proof -
  have "(length (u_states (c_undoStack c3)) + SIZE_MOD - 1) mod SIZE_MOD
      = u_currentIndex (c_undoStack c3)"
    using assms by (simp add: SIZE_MOD_def flip: assms(1))
  then show "\<not> CanvasCore_canRedo c3" "CanvasCore_redo c3 = Inr c3"
    by (simp_all add: CanvasCore_canRedo_def CanvasCore_redo_def UndoStack_canRedo_def)
qed

lemma white_dot_pixel:
  "TileGrid_getPixel (l_pixels (c_layers (snd (run_kernels exact_fp
       (statics_init, CanvasCore_beginStroke canvas_1x1 0) [white_dot])) ! 0)) 0 0 = white"
proof -
  have layers: "c_layers (CanvasCore_beginStroke canvas_1x1 0) = [background_1x1]"
      "c_width (CanvasCore_beginStroke canvas_1x1 0) = 1"
      "c_height (CanvasCore_beginStroke canvas_1x1 0) = 1"
    by (simp_all add: CanvasCore_beginStroke_def canvas_1x1_def)
  have mix: "brush_blend exact_fp white 1 p = white" for p
    by (simp add: brush_blend_def exact_fp_def white_def)
  have radius: "fp_radius exact_fp 2 = 1"
    by (simp add: exact_fp_def)
  have range: "[- 1..1::int] = [- 1, 0, 1]"
    by (simp add: upto.simps)
  have outside: "stamp_pixel fp blend 1 1 opa 1 0 0 dy w dx = w" if "dx \<noteq> 0 \<or> dy \<noteq> 0"
    for fp blend opa dy w dx
    using that by (auto simp: stamp_pixel_def)
  have centre: "stamp_pixel exact_fp (brush_blend exact_fp white) 1 1 1 1 0 0 0 w 0
      = TileGrid_setPixel w 0 0 white" for w
  proof -
    have "fp_in_disk exact_fp 0 0 1" "fp_alpha exact_fp 0 0 1 1 = 1"
      by (simp_all add: exact_fp_def)
    then show ?thesis
      by (simp add: stamp_pixel_def TileGrid_setPixel_def mix split_def)
  qed
  have stamp: "stamp_point exact_fp (brush_blend exact_fp white) 1 1 2 1 (statics_init, grid_1x1) (0, 0)
      = TileGrid_setPixel (statics_init, grid_1x1) 0 0 white"
    by (simp add: stamp_point_def radius range outside centre)
  have set: "TileGrid_getPixel (snd (TileGrid_setPixel (statics_init, grid_1x1) 0 0 white)) 0 0 = white"
    by (simp add: TileGrid_setPixel_def TileGrid_getPixel_mut_def TileGrid_getTile_mut_def
        tile_out_of_range_def grid_1x1_def TILE_SIZE_def Tile_at_mut_def local_out_of_range_def
        tile_deref_def tile_assign_def pixel_write_def Tile_write_def TileGrid_getPixel_def
        TileGrid_getTile_def Tile_at_def Tile_ctor_def Let_def)
  show ?thesis
    by (simp add: run_kernels_def white_dot_def CanvasCore_drawBrushStroke_def layers Let_def
        background_1x1_def stamp set)
qed

text \<open>
  C3. The claim is that \<open>undo\<close> followed by \<open>redo\<close> gives back the pixels that the
  stroke left. On the canvas of size 1 by 1, after \<open>begin_stroke\<close> and a white dot
  the pixel is white; \<open>undo\<close> makes it black again; then \<open>can_redo\<close> is false,
  \<open>redo\<close> changes nothing and the pixel stays black. (Lemma \<open>undo_after_stroke\<close>
  with \<open>redo_after_undo_noop\<close> shows the same on every canvas and for every stroke.)
\<close>

theorem redo_does_not_restore_stroke:
  "(let c2 = snd (run_kernels exact_fp
                   (statics_init, CanvasCore_beginStroke canvas_1x1 0) [white_dot])
    in TileGrid_getPixel (l_pixels (c_layers c2 ! 0)) 0 0 = white \<and>
       (case CanvasCore_undo c2 of
          Inl e \<Rightarrow> False
        | Inr c3 \<Rightarrow>
            \<not> CanvasCore_canRedo c3 \<and> CanvasCore_redo c3 = Inr c3 \<and>
            TileGrid_getPixel (l_pixels (c_layers c3 ! 0)) 0 0 = Pixel_default))"
proof -
  obtain c3 where c3:
      "CanvasCore_undo (snd (run_kernels exact_fp
          (statics_init, CanvasCore_beginStroke canvas_1x1 0) [white_dot])) = Inr c3"
      "map l_pixels (c_layers c3) = map l_pixels (c_layers canvas_1x1)"
      "Suc (u_currentIndex (c_undoStack c3)) = length (u_states (c_undoStack c3))"
      "length (u_states (c_undoStack c3)) \<le> 50"
    using undo_after_stroke [OF canvas_inv_1x1, of exact_fp statics_init 0 "[white_dot]"] by blast
  have "map l_pixels (c_layers c3) ! 0 = grid_1x1"
    by (simp add: c3(2) canvas_1x1_def background_1x1_def)
  moreover have "c_layers c3 \<noteq> []"
    using c3(2) by (auto simp: canvas_1x1_def)
  ultimately have "l_pixels (c_layers c3 ! 0) = grid_1x1"
    by (simp add: nth_map)
  then have black: "TileGrid_getPixel (l_pixels (c_layers c3 ! 0)) 0 0 = Pixel_default"
    by (simp add: TileGrid_getPixel_def TileGrid_getTile_def tile_out_of_range_def grid_1x1_def
        TILE_SIZE_def Tile_at_def local_out_of_range_def Tile_ctor_def)
  show ?thesis
    using white_dot_pixel c3(1) black redo_after_undo_noop [OF c3(3,4)]
    by (simp add: Let_def)
qed

section \<open>What undo and redo leave alone\<close>

lemma restore_layers_restored:
  "restored_from c snapshots (c\<lparr>c_undoStack := us, c_layers := restore_layers (c_layers c) snapshots\<rparr>)"
  by (simp add: restored_from_def restore_layers_def TileGrid_assign_def)

text \<open>
  The frame of \<open>undo\<close> and \<open>redo\<close>. When \<open>undo\<close> (or \<open>redo\<close>) returns and the stack
  allowed it, the new canvas is
  the old one with copies of the grids that \<open>popState\<close> (or \<open>redoState\<close>) returned in
  the layers whose index is below both the number of layers and the number of those
  grids; every other layer keeps its grid, and the number of layers, their order and
  every other field of every layer are as before. When the stack did not allow it, the
  canvas is unchanged.
\<close>

theorem undo_redo_frame:
  "(CanvasCore_undo c = Inr c' \<longrightarrow>
      (if CanvasCore_canUndo c
       then \<exists>snapshots us. UndoStack_popState (c_undoStack c) = Inr (snapshots, us) \<and>
              restored_from c snapshots c'
       else c' = c)) \<and>
   (CanvasCore_redo d = Inr d' \<longrightarrow>
      (if CanvasCore_canRedo d
       then \<exists>snapshots us. UndoStack_redoState (c_undoStack d) = Inr (snapshots, us) \<and>
              restored_from d snapshots d'
       else d' = d))"
  by (auto simp: CanvasCore_undo_def CanvasCore_redo_def CanvasCore_canUndo_def
      CanvasCore_canRedo_def restore_layers_restored split: sum.splits)

lemma grid_wf_1x1: "grid_wf grid_1x1"
  by (simp add: grid_wf_def grid_1x1_def)

lemma undo_canvas_undoable:
  "CanvasCore_canUndo canvas_undoable"
  "UndoStack_popState (c_undoStack canvas_undoable)
     = Inr ([grid_1x1], \<lparr>u_states = [snapshot_1x1], u_currentIndex = 0, u_maxStates = 50\<rparr>)"
  "CanvasCore_undo canvas_undoable
     = Inr (canvas_1x1\<lparr>c_undoStack :=
              \<lparr>u_states = [snapshot_1x1], u_currentIndex = 0, u_maxStates = 50\<rparr>\<rparr>)"
  by (simp_all add: CanvasCore_undo_def CanvasCore_canUndo_def canvas_undoable_def
      UndoStack_canUndo_def UndoStack_popState_def snapshot_1x1_def TileGrid_copy_id grid_wf_1x1
      restore_layers_def TileGrid_assign_def canvas_1x1_def painted_1x1_def background_1x1_def)

lemma redo_canvas_redoable:
  "CanvasCore_canRedo canvas_redoable"
  "UndoStack_redoState (c_undoStack canvas_redoable)
     = Inr ([grid_1x1],
            \<lparr>u_states = [snapshot_1x1, snapshot_1x1], u_currentIndex = 1, u_maxStates = 50\<rparr>)"
  "CanvasCore_redo canvas_redoable
     = Inr (canvas_1x1\<lparr>c_undoStack :=
              \<lparr>u_states = [snapshot_1x1, snapshot_1x1], u_currentIndex = 1, u_maxStates = 50\<rparr>\<rparr>)"
  by (simp_all add: CanvasCore_redo_def CanvasCore_canRedo_def canvas_redoable_def
      UndoStack_canRedo_def UndoStack_redoState_def snapshot_1x1_def TileGrid_copy_id grid_wf_1x1
      restore_layers_def TileGrid_assign_def canvas_1x1_def painted_1x1_def background_1x1_def
      SIZE_MOD_def)

theorem undo_redo_frame_witness:
  "CanvasCore_undo canvas_undoable
     = Inr (canvas_1x1\<lparr>c_undoStack :=
              \<lparr>u_states = [snapshot_1x1], u_currentIndex = 0, u_maxStates = 50\<rparr>\<rparr>) \<and>
   CanvasCore_redo canvas_redoable
     = Inr (canvas_1x1\<lparr>c_undoStack :=
              \<lparr>u_states = [snapshot_1x1, snapshot_1x1], u_currentIndex = 1, u_maxStates = 50\<rparr>\<rparr>) \<and>
   restored_from canvas_undoable [grid_1x1]
     (canvas_1x1\<lparr>c_undoStack :=
        \<lparr>u_states = [snapshot_1x1], u_currentIndex = 0, u_maxStates = 50\<rparr>\<rparr>) \<and>
   restored_from canvas_redoable [grid_1x1]
     (canvas_1x1\<lparr>c_undoStack :=
        \<lparr>u_states = [snapshot_1x1, snapshot_1x1], u_currentIndex = 1, u_maxStates = 50\<rparr>\<rparr>)"
  using undo_redo_frame [of canvas_undoable
      "canvas_1x1\<lparr>c_undoStack :=
         \<lparr>u_states = [snapshot_1x1], u_currentIndex = 0, u_maxStates = 50\<rparr>\<rparr>"
      canvas_redoable
      "canvas_1x1\<lparr>c_undoStack :=
         \<lparr>u_states = [snapshot_1x1, snapshot_1x1], u_currentIndex = 1, u_maxStates = 50\<rparr>\<rparr>"]
  by (simp add: undo_canvas_undoable redo_canvas_redoable)

text \<open>
  On a canvas that satisfies the invariant \<open>undo\<close> always returns, and \<open>redo\<close> returns
  when the history holds a state.
\<close>

lemma undo_returns:
  assumes "canvas_inv c"
  shows "\<exists>c'. CanvasCore_undo c = Inr c'"
  using assms
  by (auto simp: CanvasCore_undo_def UndoStack_popState_def UndoStack_canUndo_def Let_def
      canvas_inv_def stack_inv_def)

lemma redo_returns:
  assumes "canvas_inv c" "u_states (c_undoStack c) \<noteq> []"
  shows "\<exists>c'. CanvasCore_redo c = Inr c'"
proof (cases "UndoStack_canRedo (c_undoStack c)")
  case False
  then show ?thesis
    by (simp add: CanvasCore_redo_def)
next
  case True
  define n where "n = length (u_states (c_undoStack c))"
  have n: "0 < n" "n \<le> 50"
    using assms by (simp_all add: canvas_inv_def stack_inv_def n_def)
  have "n + SIZE_MOD - 1 = SIZE_MOD + (n - 1)"
    using n by simp
  then have "(n + SIZE_MOD - 1) mod SIZE_MOD = (n - 1) mod SIZE_MOD"
    by (simp only: mod_add_self1)
  also have "\<dots> = n - 1"
    using n by (simp add: SIZE_MOD_def)
  finally have "u_currentIndex (c_undoStack c) < n"
    using True by (simp add: UndoStack_canRedo_def n_def)
  then show ?thesis
    using True by (simp add: CanvasCore_redo_def UndoStack_redoState_def n_def)
qed

text \<open>Every canvas that the constructor returns has an empty history.\<close>

lemma fresh_redo:
  assumes "CanvasCore_ctor W H = Inr c"
  shows "CanvasCore_canRedo c" "CanvasCore_redo c = Inl OutOfRange"
proof -
  have us: "c_undoStack c = UndoStack_ctor 50"
    using assms
    by (auto simp: CanvasCore_ctor_def CanvasCore_addLayer_def split: sum.splits)
  show "CanvasCore_canRedo c"
    by (simp add: CanvasCore_canRedo_def us UndoStack_canRedo_def UndoStack_ctor_def SIZE_MOD_def)
  then show "CanvasCore_redo c = Inl OutOfRange"
    by (simp add: CanvasCore_redo_def CanvasCore_canRedo_def us UndoStack_redoState_def
        UndoStack_ctor_def)
qed

text \<open>
  C10. The claim is that \<open>redo\<close> on every canvas writes only the layers that have a
  snapshot and leaves the list of layers as it is. On a canvas whose history is empty, as
  on every canvas that the constructor returns, there is nothing to redo; but \<open>canRedo\<close>
  compares with \<open>states_.size() - 1\<close>, which wraps, so \<open>redo\<close> goes on and \<open>redoState\<close>
  reads \<open>states_[0]\<close> of the empty vector.
\<close>

theorem redo_faults_on_new_canvas:
  "CanvasCore_ctor 1 1 = Inr canvas_1x1 \<and>
   CanvasCore_canRedo canvas_1x1 \<and>
   UndoStack_redoState (c_undoStack canvas_1x1) = Inl OutOfRange \<and>
   CanvasCore_redo canvas_1x1 = Inl OutOfRange"
  using fresh_redo [OF CanvasCore_ctor_1x1]
  by (simp add: CanvasCore_ctor_1x1 canvas_1x1_def UndoStack_redoState_def UndoStack_canRedo_def
      UndoStack_ctor_def SIZE_MOD_def)


section \<open>Where the pixels of a grid are kept\<close>

lemma div_256_less:
  assumes "0 \<le> x" "x < 256 * (n::int)"
  shows "0 \<le> x div 256" "x div 256 < n"
proof -
  show "0 \<le> x div 256"
    using assms(1) by (simp add: pos_imp_zdiv_nonneg_iff)
  have "256 * (x div 256) \<le> x"
    by (simp add: assms(1))
  then show "x div 256 < n"
    using assms(2) by linarith
qed

lemma covered_tile:
  assumes "covered gr x y"
  shows "\<not> tile_out_of_range gr (x sdiv TILE_SIZE) (y sdiv TILE_SIZE)"
    and "\<not> local_out_of_range (x smod TILE_SIZE) (y smod TILE_SIZE)"
proof -
  have x: "0 \<le> x" "x < 256 * g_tileCountX gr" and y: "0 \<le> y" "y < 256 * g_tileCountY gr"
    using assms by (simp_all add: covered_def TILE_SIZE_def)
  show "\<not> tile_out_of_range gr (x sdiv TILE_SIZE) (y sdiv TILE_SIZE)"
    using div_256_less [OF x] div_256_less [OF y] x y
    by (simp add: tile_out_of_range_def TILE_SIZE_def sdiv_nonneg not_less)
  show "\<not> local_out_of_range (x smod TILE_SIZE) (y smod TILE_SIZE)"
    using x y by (simp add: local_out_of_range_def TILE_SIZE_def smod_nonneg not_less not_le)
qed

lemma getPixel_covered:
  assumes "covered gr x y"
  shows "TileGrid_getPixel gr x y = t_pixels (g_tiles gr ! tile_index gr x y) ! local_index x y"
  using covered_tile [OF assms]
  by (simp add: TileGrid_getPixel_def TileGrid_getTile_def Tile_at_def tile_index_def
      local_index_def Let_def)

lemma tile_index_less:
  assumes "grid_wf gr" "covered gr x y"
  shows "tile_index gr x y < length (g_tiles gr)"
proof -
  have x: "0 \<le> x" "x < 256 * g_tileCountX gr" and y: "0 \<le> y" "y < 256 * g_tileCountY gr"
    using assms(2) by (simp_all add: covered_def TILE_SIZE_def)
  define n where "n = nat (g_tileCountX gr)"
  define m where "m = nat (g_tileCountY gr)"
  define tx where "tx = nat (x div 256)"
  define ty where "ty = nat (y div 256)"
  have tx: "tx < n" and ty: "ty < m"
    using div_256_less [OF x] div_256_less [OF y] by (simp_all add: tx_def ty_def n_def m_def)
  have "tile_index gr x y = ty * n + tx"
    using div_256_less [OF x] div_256_less [OF y] x y
    by (simp add: tile_index_def TILE_SIZE_def sdiv_nonneg tx_def ty_def n_def nat_add_distrib
        nat_mult_distrib)
  moreover have "ty * n + tx < m * n"
  proof -
    have "ty * n + tx < ty * n + n" using tx by simp
    also have "\<dots> = Suc ty * n" by simp
    also have "\<dots> \<le> m * n" using ty by (intro mult_le_mono1) simp
    finally show ?thesis .
  qed
  ultimately show ?thesis
    using assms(1) by (simp add: grid_wf_def n_def m_def mult.commute)
qed

lemma setPixel_covered:
  assumes "grid_wf gr" "covered gr x y"
  shows "TileGrid_setPixel (s, gr) x y p =
           (s, gr\<lparr>g_tiles := (g_tiles gr)[tile_index gr x y :=
                  (g_tiles gr ! tile_index gr x y)
                    \<lparr>t_dirty := True,
                     t_pixels := (t_pixels (g_tiles gr ! tile_index gr x y))[local_index x y := p]\<rparr>]\<rparr>)"
  using covered_tile [OF assms(2)] tile_index_less [OF assms]
  by (simp add: TileGrid_setPixel_def TileGrid_getPixel_mut_def TileGrid_getTile_mut_def
      Tile_at_mut_def tile_deref_def tile_assign_def pixel_write_def Tile_write_def
      tile_index_def local_index_def Let_def)

lemma local_index_less:
  assumes "0 \<le> x" "0 \<le> y"
  shows "local_index x y < 65536"
proof -
  have "0 \<le> x mod 256" "x mod 256 < 256" "0 \<le> y mod 256" "y mod 256 < 256"
    by simp_all
  then have "(y mod 256) * 256 + x mod 256 < 65536"
    by linarith
  then show ?thesis
    using assms by (simp add: local_index_def TILE_SIZE_def smod_nonneg)
qed

lemma mixed_radix_inj:
  fixes a b a' b' n :: int
  assumes "0 \<le> b" "b < n" "0 \<le> b'" "b' < n" "a * n + b = a' * n + b'"
  shows "a = a' \<and> b = b'"
proof -
  have "a = a'"
  proof (rule ccontr)
    assume "a \<noteq> a'"
    then consider "a + 1 \<le> a'" | "a' + 1 \<le> a" by linarith
    then show False
    proof cases
      case 1
      then have "(a + 1) * n \<le> a' * n"
        using assms(1,2) by (intro mult_right_mono) auto
      then show False using assms by (simp add: algebra_simps)
    next
      case 2
      then have "(a' + 1) * n \<le> a * n"
        using assms(1,2) by (intro mult_right_mono) auto
      then show False using assms by (simp add: algebra_simps)
    qed
  qed
  then show ?thesis using assms(5) by simp
qed

text \<open>Two covered pixels that are kept at the same place are the same pixel.\<close>

lemma index_inj:
  assumes "covered gr x y" "covered gr x' y'"
    "tile_index gr x y = tile_index gr x' y'" "local_index x y = local_index x' y'"
  shows "x = x' \<and> y = y'"
proof -
  have x: "0 \<le> x" "x < 256 * g_tileCountX gr" and y: "0 \<le> y" "y < 256 * g_tileCountY gr"
    using assms(1) by (simp_all add: covered_def TILE_SIZE_def)
  have x': "0 \<le> x'" "x' < 256 * g_tileCountX gr" and y': "0 \<le> y'" "y' < 256 * g_tileCountY gr"
    using assms(2) by (simp_all add: covered_def TILE_SIZE_def)
  define n where "n = g_tileCountX gr"
  have loc: "(y mod 256) * 256 + x mod 256 = (y' mod 256) * 256 + x' mod 256"
    using assms(4) x y x' y'
    by (simp add: local_index_def TILE_SIZE_def smod_nonneg nat_eq_iff)
  have l: "y mod 256 = y' mod 256 \<and> x mod 256 = x' mod 256"
    by (rule mixed_radix_inj [OF _ _ _ _ loc]) simp_all
  have tb: "0 \<le> x div 256" "x div 256 < n" "0 \<le> x' div 256" "x' div 256 < n"
      "0 \<le> y div 256" "0 \<le> y' div 256"
    using div_256_less [OF x] div_256_less [OF x'] div_256_less [OF y] div_256_less [OF y']
    by (simp_all add: n_def)
  have nonneg: "0 \<le> (y div 256) * n + x div 256" "0 \<le> (y' div 256) * n + x' div 256"
    using tb by (simp_all add: mult_nonneg_nonneg) 
  have til: "(y div 256) * n + x div 256 = (y' div 256) * n + x' div 256"
    using assms(3) x y x' y' nonneg
    by (simp add: tile_index_def TILE_SIZE_def sdiv_nonneg n_def nat_eq_iff)
  have t: "y div 256 = y' div 256 \<and> x div 256 = x' div 256"
    by (rule mixed_radix_inj [OF tb(1,2,3,4) til])
  have "256 * (x div 256) + x mod 256 = 256 * (x' div 256) + x' mod 256"
       "256 * (y div 256) + y mod 256 = 256 * (y' div 256) + y' mod 256"
    using l t by simp_all
  then show ?thesis
    by (simp only: mult_div_mod_eq)
qed

text \<open>A write to a covered pixel and the reads after it.\<close>

lemma tile_count_covers:
  assumes "0 \<le> x" "x < W"
  shows "x < TILE_SIZE * tile_count W"
proof -
  have "W + 255 = 256 * ((W + 255) div 256) + (W + 255) mod 256"
    by simp
  moreover have "(W + 255) mod 256 < 256"
    by simp
  ultimately have "W \<le> 256 * ((W + 255) div 256)"
    by linarith
  then show ?thesis
    using assms by (simp add: tile_count_def TILE_SIZE_def sdiv_nonneg)
qed

lemma grid_inv_covered:
  assumes "grid_inv h" "0 \<le> x" "x < g_width h" "0 \<le> y" "y < g_height h"
  shows "covered h x y"
  using assms tile_count_covers [of x "g_width h"] tile_count_covers [of y "g_height h"]
  by (simp add: grid_inv_def covered_def)

lemma setPixel_grid_inv:
  assumes "grid_inv h" "covered h x y"
  shows "grid_inv (snd (TileGrid_setPixel (s, h) x y p))"
    and "g_width (snd (TileGrid_setPixel (s, h) x y p)) = g_width h"
    and "g_height (snd (TileGrid_setPixel (s, h) x y p)) = g_height h"
    and "g_tileCountX (snd (TileGrid_setPixel (s, h) x y p)) = g_tileCountX h"
    and "g_tileCountY (snd (TileGrid_setPixel (s, h) x y p)) = g_tileCountY h"
    and "fst (TileGrid_setPixel (s, h) x y p) = s"
proof -
  have wf: "grid_wf h"
    using assms(1) by (simp add: grid_inv_def)
  note eq = setPixel_covered [OF wf assms(2)]
  have k: "tile_index h x y < length (g_tiles h)"
    by (rule tile_index_less [OF wf assms(2)])
  have len: "\<forall>t \<in> set (g_tiles h). length (t_pixels t) = nat (TILE_SIZE * TILE_SIZE)"
    using assms(1) by (simp add: grid_inv_def)
  have "length (t_pixels t) = nat (TILE_SIZE * TILE_SIZE)"
    if "t \<in> set ((g_tiles h)[tile_index h x y := (g_tiles h ! tile_index h x y)
          \<lparr>t_dirty := True,
           t_pixels := (t_pixels (g_tiles h ! tile_index h x y))[local_index x y := p]\<rparr>])" for t
    using that len k by (auto simp: set_conv_nth nth_list_update split: if_splits)
  then show "grid_inv (snd (TileGrid_setPixel (s, h) x y p))"
    using assms(1) by (simp add: eq grid_inv_def grid_wf_def)
  show "g_width (snd (TileGrid_setPixel (s, h) x y p)) = g_width h"
    "g_height (snd (TileGrid_setPixel (s, h) x y p)) = g_height h"
    "g_tileCountX (snd (TileGrid_setPixel (s, h) x y p)) = g_tileCountX h"
    "g_tileCountY (snd (TileGrid_setPixel (s, h) x y p)) = g_tileCountY h"
    "fst (TileGrid_setPixel (s, h) x y p) = s"
    by (simp_all add: eq)
qed

lemma covered_setPixel:
  assumes "grid_inv h" "covered h x y"
  shows "covered (snd (TileGrid_setPixel (s, h) x y p)) x' y' = covered h x' y'"
  by (simp add: covered_def setPixel_grid_inv [OF assms])

lemma tile_index_setPixel:
  assumes "grid_inv h" "covered h x y"
  shows "tile_index (snd (TileGrid_setPixel (s, h) x y p)) x' y' = tile_index h x' y'"
  by (simp add: tile_index_def setPixel_grid_inv [OF assms])

lemma getPixel_setPixel:
  assumes "grid_inv h" "covered h x y" "covered h x' y'"
  shows "TileGrid_getPixel (snd (TileGrid_setPixel (s, h) x y p)) x' y' =
           (if x' = x \<and> y' = y then p else TileGrid_getPixel h x' y')"
proof -
  have wf: "grid_wf h"
    using assms(1) by (simp add: grid_inv_def)
  let ?h' = "snd (TileGrid_setPixel (s, h) x y p)"
  let ?k = "tile_index h x y" and ?i = "local_index x y"
  let ?k' = "tile_index h x' y'" and ?i' = "local_index x' y'"
  have cov': "covered ?h' x' y'"
    using assms by (simp add: covered_setPixel)
  have k: "?k < length (g_tiles h)" "?k' < length (g_tiles h)"
    using tile_index_less [OF wf] assms by simp_all
  have "length (t_pixels (g_tiles h ! ?k)) = 65536"
    using assms(1) k(1) by (simp add: grid_inv_def TILE_SIZE_def)
  moreover have "?i < 65536"
    using assms(2) by (intro local_index_less) (simp_all add: covered_def)
  ultimately have i: "?i < length (t_pixels (g_tiles h ! ?k))"
    by simp
  have "TileGrid_getPixel ?h' x' y' = t_pixels (g_tiles ?h' ! ?k') ! ?i'"
    by (simp add: getPixel_covered [OF cov'] tile_index_setPixel [OF assms(1,2)])
  also have "\<dots> = (if ?k' = ?k \<and> ?i' = ?i then p else t_pixels (g_tiles h ! ?k') ! ?i')"
    using k i by (simp add: setPixel_covered [OF wf assms(2)] nth_list_update)
  also have "\<dots> = (if x' = x \<and> y' = y then p else TileGrid_getPixel h x' y')"
    using index_inj [OF assms(3,2)] by (auto simp: getPixel_covered [OF assms(3)])
  finally show ?thesis .
qed





section \<open>Access outside the range\<close>

lemma neg_sdiv_smod:
  fixes x :: int
  assumes "x < 0"
  shows "x sdiv 256 < 0 \<or> x smod 256 < 0"
proof -
  have le: "x smod 256 \<le> 0"
    using assms by (simp add: signed_modulo_int_def sgn_if)
  have "x sdiv 256 * 256 + x smod 256 = x"
    by (rule sdiv_mult_smod_eq)
  then show ?thesis
    using assms le by (cases "x smod 256 = 0") auto
qed

lemma not_covered_cases:
  assumes "\<not> covered gr x y"
  shows "tile_out_of_range gr (x sdiv TILE_SIZE) (y sdiv TILE_SIZE) \<or>
         local_out_of_range (x smod TILE_SIZE) (y smod TILE_SIZE)"
proof -
  have ge: "n \<le> v sdiv 256" if "0 \<le> v" "256 * n \<le> v" for v n :: int
  proof -
    have "(256 * n) div 256 \<le> v div 256"
      using that(2) by (intro zdiv_mono1) simp_all
    then show ?thesis
      using that(1) by (simp add: sdiv_nonneg)
  qed
  show ?thesis
  proof (cases "x < 0 \<or> y < 0")
    case True
    then show ?thesis
      using neg_sdiv_smod [of x] neg_sdiv_smod [of y]
      by (auto simp: tile_out_of_range_def local_out_of_range_def TILE_SIZE_def)
  next
    case False
    then have "256 * g_tileCountX gr \<le> x \<or> 256 * g_tileCountY gr \<le> y"
      using assms by (auto simp: covered_def TILE_SIZE_def not_less)
    then show ?thesis
      using False ge [of x "g_tileCountX gr"] ge [of y "g_tileCountY gr"]
      by (auto simp: tile_out_of_range_def TILE_SIZE_def)
  qed
qed



lemma setPixel_not_covered:
  assumes "\<not> covered gr x y"
  shows "snd (TileGrid_setPixel (s, gr) x y p) = gr"
proof (cases "tile_out_of_range gr (x sdiv TILE_SIZE) (y sdiv TILE_SIZE)")
  case True
  then show ?thesis
    by (simp add: TileGrid_setPixel_def TileGrid_getPixel_mut_def TileGrid_getTile_mut_def
        tile_assign_def pixel_write_def Let_def split_def)
next
  case False
  then have "local_out_of_range (x smod TILE_SIZE) (y smod TILE_SIZE)"
    using not_covered_cases [OF assms] by simp
  then show ?thesis
    using False
    by (simp add: TileGrid_setPixel_def TileGrid_getPixel_mut_def TileGrid_getTile_mut_def
        Tile_at_mut_def tile_deref_def tile_assign_def pixel_write_def Tile_write_def Let_def)
qed











section \<open>The round trip through the image matrix\<close>

lemma of_to_Vec4w: "of_Vec4w (to_Vec4w p) = p"
  by (simp add: of_Vec4w_def to_Vec4w_def)

lemma Mat_at_toMat:
  assumes "0 \<le> x" "x < g_width gr" "0 \<le> y" "y < g_height gr"
  shows "Mat_at (TileGrid_toMat gr) y x = to_Vec4w (TileGrid_getPixel gr x y)"
proof -
  define n where "n = nat (g_width gr)"
  define m where "m = nat (g_height gr)"
  define F where "F = (\<lambda>k. to_Vec4w (TileGrid_getPixel gr (int (k mod n)) (int (k div n))))"
  have data: "m_data (TileGrid_toMat gr) = map F [0..<m * n]"
    unfolding TileGrid_toMat_def n_def [symmetric] m_def [symmetric]
    by (simp, rule concat_rows) (simp add: F_def)
  have xy: "nat x < n" "nat y < m"
    using assms by (simp_all add: n_def m_def)
  have idx: "nat (y * g_width gr + x) = nat y * n + nat x"
    using assms by (simp add: n_def nat_add_distrib nat_mult_distrib)
  have "nat y * n + nat x < m * n"
  proof -
    have "nat y * n + nat x < nat y * n + n" using xy by simp
    also have "\<dots> = Suc (nat y) * n" by simp
    also have "\<dots> \<le> m * n" using xy by (intro mult_le_mono1) simp
    finally show ?thesis .
  qed
  moreover have "m_cols (TileGrid_toMat gr) = g_width gr"
    by (simp add: TileGrid_toMat_def)
  ultimately have "Mat_at (TileGrid_toMat gr) y x = F (nat y * n + nat x)"
    by (simp add: Mat_at_def data idx)
  also have "\<dots> = to_Vec4w (TileGrid_getPixel gr x y)"
    using xy assms by (simp add: F_def)
  finally show ?thesis .
qed

lemma same_shape_refl: "same_shape h h"
  by (simp add: same_shape_def)

lemma same_shape_covered: "same_shape h h' \<Longrightarrow> covered h' x y = covered h x y"
  by (simp add: same_shape_def covered_def)

lemma same_shape_setPixel:
  assumes "grid_inv h'" "same_shape h h'" "covered h x y"
  shows "same_shape h (snd (TileGrid_setPixel (s, h') x y p))"
    and "grid_inv (snd (TileGrid_setPixel (s, h') x y p))"
proof -
  have cov: "covered h' x y"
    using assms(2,3) by (simp add: same_shape_covered)
  show "same_shape h (snd (TileGrid_setPixel (s, h') x y p))"
    using assms(2) by (simp add: same_shape_def setPixel_grid_inv [OF assms(1) cov])
  show "grid_inv (snd (TileGrid_setPixel (s, h') x y p))"
    by (rule setPixel_grid_inv [OF assms(1) cov])
qed

text \<open>One row of \<open>TileGrid::fromMat\<close>, up to the column \<open>k\<close>.\<close>

lemma fromMat_row:
  fixes h :: TileGrid and s :: statics and mat :: Mat and y :: int and k :: nat
  assumes "grid_inv h" "0 \<le> y" "y < g_height h" "k \<le> nat (g_width h)"
  defines "w \<equiv> foldl (fromMat_store mat y) (s, h) (map int [0..<k])"
  shows "grid_inv (snd w) \<and> same_shape h (snd w) \<and>
         (\<forall>x' y'. covered h x' y' \<longrightarrow>
            TileGrid_getPixel (snd w) x' y' =
              (if y' = y \<and> x' < int k then of_Vec4w (Mat_at mat y x')
               else TileGrid_getPixel h x' y'))"
  using assms(4) unfolding w_def
proof (induction k)
  case 0
  show ?case
    using assms(1) by (auto simp: same_shape_refl covered_def)
next
  case (Suc k)
  obtain s0 h0 where w0: "foldl (fromMat_store mat y) (s, h) (map int [0..<k]) = (s0, h0)"
    by (cases "foldl (fromMat_store mat y) (s, h) (map int [0..<k])")
  define v where "v = of_Vec4w (Mat_at mat y (int k))"
  have ih: "grid_inv h0" "same_shape h h0"
      "\<And>x' y'. covered h x' y' \<Longrightarrow> TileGrid_getPixel h0 x' y' =
          (if y' = y \<and> x' < int k then of_Vec4w (Mat_at mat y x')
           else TileGrid_getPixel h x' y')"
    using Suc by (simp_all add: w0)
  have cov: "covered h (int k) y"
    using Suc.prems assms(1,2,3) by (intro grid_inv_covered) simp_all
  have step: "foldl (fromMat_store mat y) (s, h) (map int [0..<Suc k])
      = TileGrid_setPixel (s0, h0) (int k) y v"
    by (simp add: w0 v_def fromMat_store_def)
  have cov0: "covered h0 (int k) y"
    using cov ih(2) by (simp add: same_shape_covered)
  have get: "TileGrid_getPixel (snd (TileGrid_setPixel (s0, h0) (int k) y v)) x' y' =
      (if y' = y \<and> x' < int (Suc k) then of_Vec4w (Mat_at mat y x')
       else TileGrid_getPixel h x' y')" if c: "covered h x' y'" for x' y'
  proof -
    have c0: "covered h0 x' y'"
      using c ih(2) by (simp add: same_shape_covered)
    show ?thesis
      using ih(3) [OF c]
      by (auto simp: getPixel_setPixel [OF ih(1) cov0 c0] v_def)
  qed
  show ?case
    unfolding step
    using same_shape_setPixel [OF ih(1,2) cov] get by simp
qed

text \<open>The rows of \<open>TileGrid::fromMat\<close>, up to the row \<open>j\<close>.\<close>

lemma fromMat_rows:
  fixes h :: TileGrid and s :: statics and mat :: Mat and j :: nat
  assumes "grid_inv h" "j \<le> nat (g_height h)"
  defines "w \<equiv> foldl (\<lambda>w y. foldl (fromMat_store mat y) w (map int [0..<nat (g_width (snd w))]))
                   (s, h) (map int [0..<j])"
  shows "grid_inv (snd w) \<and> same_shape h (snd w) \<and>
         (\<forall>x' y'. covered h x' y' \<longrightarrow>
            TileGrid_getPixel (snd w) x' y' =
              (if y' < int j \<and> x' < g_width h then of_Vec4w (Mat_at mat y' x')
               else TileGrid_getPixel h x' y'))"
  using assms(2) unfolding w_def
proof (induction j)
  case 0
  show ?case
    using assms(1) by (auto simp: same_shape_refl covered_def)
next
  case (Suc j)
  obtain s0 h0 where w0: "foldl (\<lambda>w y. foldl (fromMat_store mat y) w
      (map int [0..<nat (g_width (snd w))])) (s, h) (map int [0..<j]) = (s0, h0)"
    by (cases "foldl (\<lambda>w y. foldl (fromMat_store mat y) w
      (map int [0..<nat (g_width (snd w))])) (s, h) (map int [0..<j])")
  have ih: "grid_inv h0" "same_shape h h0"
      "\<And>x' y'. covered h x' y' \<Longrightarrow> TileGrid_getPixel h0 x' y' =
          (if y' < int j \<and> x' < g_width h then of_Vec4w (Mat_at mat y' x')
           else TileGrid_getPixel h x' y')"
    using Suc by (simp_all add: w0)
  have dims: "g_width h0 = g_width h" "g_height h0 = g_height h"
    using ih(2) by (simp_all add: same_shape_def)
  define w1 where "w1 = foldl (fromMat_store mat (int j)) (s0, h0) (map int [0..<nat (g_width h0)])"
  have step: "foldl (\<lambda>w y. foldl (fromMat_store mat y) w
      (map int [0..<nat (g_width (snd w))])) (s, h) (map int [0..<Suc j]) = w1"
    by (simp add: w0 w1_def)
  have row: "grid_inv (snd w1) \<and> same_shape h0 (snd w1) \<and>
      (\<forall>x' y'. covered h0 x' y' \<longrightarrow>
         TileGrid_getPixel (snd w1) x' y' =
           (if y' = int j \<and> x' < int (nat (g_width h0))
            then of_Vec4w (Mat_at mat (int j) x')
            else TileGrid_getPixel h0 x' y'))"
    unfolding w1_def
    by (rule fromMat_row [OF ih(1)]) (use Suc.prems dims in simp_all)
  have shape: "same_shape h (snd w1)"
    using row ih(2) by (simp add: same_shape_def)
  have get: "TileGrid_getPixel (snd w1) x' y' =
      (if y' < int (Suc j) \<and> x' < g_width h then of_Vec4w (Mat_at mat y' x')
       else TileGrid_getPixel h x' y')" if c: "covered h x' y'" for x' y'
  proof -
    have c0: "covered h0 x' y'"
      using c ih(2) by (simp add: same_shape_covered)
    have "0 \<le> x'"
      using c by (simp add: covered_def)
    then show ?thesis
      using row c0 ih(3) [OF c] dims by auto
  qed
  show ?case
    unfolding step using row shape get by simp
qed

text \<open>
  C7. Let \<open>gr\<close> be any grid and \<open>h\<close> a grid of the same width and height (a new one,
  or \<open>gr\<close> itself). After \<open>h.fromMat(gr.toMat())\<close> every pixel \<open>(x, y)\<close> of the image,
  \<open>0 \<le> x < W\<close> and \<open>0 \<le> y < H\<close>, is in \<open>h\<close> what it is in \<open>gr\<close>, in all four channels.
  The hypothesis \<open>grid_inv h\<close> is the invariant of the class, which the constructor
  establishes (\<open>grid_inv_ctor\<close>).
\<close>

theorem matrix_round_trip:
  assumes "grid_inv h" "g_width h = g_width gr" "g_height h = g_height gr"
    and "0 \<le> x" "x < g_width gr" "0 \<le> y" "y < g_height gr"
  shows "TileGrid_getPixel (snd (TileGrid_fromMat (s, h) (TileGrid_toMat gr))) x y
           = TileGrid_getPixel gr x y"
proof -
  let ?mat = "TileGrid_toMat gr"
  have dims: "m_rows ?mat = g_height h" "m_cols ?mat = g_width h"
    using assms(2,3) by (simp_all add: TileGrid_toMat_def)
  have cov: "covered h x y"
    using assms by (intro grid_inv_covered) simp_all
  have "TileGrid_getPixel (snd (TileGrid_fromMat (s, h) ?mat)) x y = of_Vec4w (Mat_at ?mat y x)"
    using fromMat_rows [OF assms(1) order_refl, of ?mat s] cov assms(2-7)
    by (simp add: TileGrid_fromMat_def dims)
  also have "\<dots> = TileGrid_getPixel gr x y"
    using assms(4-7) by (simp add: Mat_at_toMat of_to_Vec4w)
  finally show ?thesis .
qed

lemma grid_inv_ctor:
  assumes "TileGrid_ctor W H = Inr gr"
  shows "grid_inv gr"
proof -
  define n where "n = nat (tile_count W)"
  define m where "m = nat (tile_count H)"
  have gr: "gr = \<lparr>g_tiles = concat (map (\<lambda>ty. map (\<lambda>tx.
                        Tile_ctor (int tx * TILE_SIZE) (int ty * TILE_SIZE)) [0..<n]) [0..<m]),
                   g_width = W, g_height = H,
                   g_tileCountX = tile_count W, g_tileCountY = tile_count H\<rparr>"
    using assms by (simp add: TileGrid_ctor_def Let_def tile_count_def n_def m_def split: if_splits)
  have "concat (map (\<lambda>ty. map (\<lambda>tx. Tile_ctor (int tx * TILE_SIZE) (int ty * TILE_SIZE))
                  [0..<n]) [0..<m])
      = map (\<lambda>k. Tile_ctor (int (k mod n) * TILE_SIZE) (int (k div n) * TILE_SIZE)) [0..<m * n]"
    by (rule concat_rows) simp
  then have tiles: "g_tiles gr
      = map (\<lambda>k. Tile_ctor (int (k mod n) * TILE_SIZE) (int (k div n) * TILE_SIZE)) [0..<m * n]"
    by (simp add: gr)
  have "grid_wf gr"
    by (simp add: grid_wf_def tiles) (simp add: gr n_def m_def mult.commute)
  moreover have "\<forall>t \<in> set (g_tiles gr). length (t_pixels t) = nat (TILE_SIZE * TILE_SIZE)"
    by (auto simp: tiles Tile_ctor_def)
  ultimately show ?thesis
    by (simp add: grid_inv_def) (simp add: gr)
qed

lemma grid_inv_1x1: "grid_inv grid_1x1"
  by (rule grid_inv_ctor [OF TileGrid_ctor_1x1])

lemma getPixel_filled: "TileGrid_getPixel (TileGrid_fill grid_1x1 white) 0 0 = white"
  by (simp add: TileGrid_getPixel_def TileGrid_getTile_def tile_out_of_range_def TileGrid_fill_def
      grid_1x1_def Tile_at_def local_out_of_range_def Tile_fill_def Tile_ctor_def TILE_SIZE_def)

theorem matrix_round_trip_witness:
  "grid_inv grid_1x1 \<and> g_width grid_1x1 = g_width (TileGrid_fill grid_1x1 white) \<and>
   g_height grid_1x1 = g_height (TileGrid_fill grid_1x1 white) \<and>
   0 < g_width (TileGrid_fill grid_1x1 white) \<and> 0 < g_height (TileGrid_fill grid_1x1 white) \<and>
   TileGrid_getPixel (snd (TileGrid_fromMat (statics_init, grid_1x1)
       (TileGrid_toMat (TileGrid_fill grid_1x1 white)))) 0 0 = white"
proof -
  have dims: "g_width (TileGrid_fill grid_1x1 white) = 1" "g_height (TileGrid_fill grid_1x1 white) = 1"
      "g_width grid_1x1 = 1" "g_height grid_1x1 = 1"
    by (simp_all add: TileGrid_fill_def grid_1x1_def)
  show ?thesis
    using matrix_round_trip [of grid_1x1 "TileGrid_fill grid_1x1 white" 0 0 statics_init]
    by (simp add: grid_inv_1x1 dims getPixel_filled)
qed


section \<open>The invariant of the canvas\<close>

text \<open>The invariant of the canvas: established by the constructor, kept by every operation.\<close>

lemma grid_wf_ctor: "TileGrid_ctor W H = Inr gr \<Longrightarrow> grid_wf gr"
  using grid_inv_ctor by (simp add: grid_inv_def)

lemma stack_inv_ctor: "stack_inv (UndoStack_ctor 50)"
  by (simp add: stack_inv_def UndoStack_ctor_def)

lemma canvas_inv_addLayer:
  assumes "canvas_inv c" "CanvasCore_addLayer c name = Inr (layer, c')"
  shows "canvas_inv c'"
  using assms
  by (auto simp: CanvasCore_addLayer_def Layer_ctor_def canvas_inv_def grid_wf_ctor
      split: sum.splits)

lemma canvas_inv_ctor:
  assumes "CanvasCore_ctor W H = Inr c"
  shows "canvas_inv c"
proof -
  have "canvas_inv \<lparr>c_width = W, c_height = H, c_layers = [], c_selection = [],
      c_undoStack = UndoStack_ctor 50\<rparr>"
    by (simp add: canvas_inv_def stack_inv_ctor)
  then show ?thesis
    using assms canvas_inv_addLayer
    by (auto simp: CanvasCore_ctor_def split: sum.splits prod.splits)
qed

lemma resize_layers_wf:
  "resize_layers ls W H = Inr ls' \<Longrightarrow> \<forall>layer \<in> set ls'. grid_wf (l_pixels layer)"
  by (induction ls arbitrary: ls')
     (auto simp: Layer_ctor_def grid_wf_ctor split: sum.splits)

lemma canvas_inv_resize:
  assumes "canvas_inv c" "CanvasCore_resize c W H = Inr c'"
  shows "canvas_inv c'"
  using assms resize_layers_wf
  by (auto simp: CanvasCore_resize_def canvas_inv_def Let_def split: sum.splits)

lemma canvas_inv_removeLayer: "canvas_inv c \<Longrightarrow> canvas_inv (CanvasCore_removeLayer c i)"
  by (auto simp: CanvasCore_removeLayer_def canvas_inv_def dest: in_set_takeD in_set_dropD)

lemma canvas_inv_moveLayer: "canvas_inv c \<Longrightarrow> canvas_inv (CanvasCore_moveLayer c i j)"
  by (auto simp: CanvasCore_moveLayer_def canvas_inv_def Let_def
      dest!: in_set_takeD in_set_dropD)

lemma canvas_inv_beginStroke:
  assumes "canvas_inv c"
  shows "canvas_inv (CanvasCore_beginStroke c now)"
proof -
  have "stack_inv (c_undoStack (CanvasCore_beginStroke c now))"
    by (rule beginStroke_stack [OF assms])
  moreover have "c_layers (CanvasCore_beginStroke c now) = c_layers c"
    by (simp add: CanvasCore_beginStroke_def)
  ultimately show ?thesis
    using assms by (simp add: canvas_inv_def)
qed

lemma canvas_inv_misc:
  assumes "canvas_inv c"
  shows "canvas_inv (CanvasCore_endStroke c)"
    and "canvas_inv (CanvasCore_setSelection c pts)"
    and "canvas_inv (CanvasCore_clearSelection c)"
    and "canvas_inv (CanvasCore_applyFilter c i ft ps)"
proof -
  show "canvas_inv (CanvasCore_endStroke c)" "canvas_inv (CanvasCore_setSelection c pts)"
    "canvas_inv (CanvasCore_clearSelection c)"
    using assms
    by (simp_all add: CanvasCore_endStroke_def CanvasCore_setSelection_def
        CanvasCore_clearSelection_def canvas_inv_def)
  show "canvas_inv (CanvasCore_applyFilter c i ft ps)"
    using assms
    by (auto simp: CanvasCore_applyFilter_def canvas_inv_def Layer_addAdjustment_def
        set_conv_nth nth_list_update)
qed

lemma restore_layers_wf:
  assumes "\<forall>layer \<in> set ls. grid_wf (l_pixels layer)" "\<forall>gr \<in> set snaps. grid_wf gr"
  shows "\<forall>layer \<in> set (restore_layers ls snaps). grid_wf (l_pixels layer)"
  using assms by (auto simp: restore_layers_def TileGrid_assign_def TileGrid_copy_id)

lemma canvas_inv_undo:
  assumes "canvas_inv c" "CanvasCore_undo c = Inr c'"
  shows "canvas_inv c'"
proof (cases "UndoStack_canUndo (c_undoStack c)")
  case False
  then show ?thesis using assms by (simp add: CanvasCore_undo_def)
next
  case True
  let ?us = "c_undoStack c"
  have inv: "stack_inv ?us" and lw: "\<forall>layer \<in> set (c_layers c). grid_wf (l_pixels layer)"
    using assms(1) by (simp_all add: canvas_inv_def)
  have i: "u_currentIndex ?us - 1 < length (u_states ?us)"
    using True inv by (auto simp: UndoStack_canUndo_def stack_inv_def)
  define snaps where "snaps = layerSnapshots (u_states ?us ! (u_currentIndex ?us - 1))"
  have sw: "\<forall>gr \<in> set snaps. grid_wf gr"
    using inv nth_mem [OF i] unfolding stack_inv_def snaps_def by blast
  have c': "c' = c\<lparr>c_undoStack := ?us\<lparr>u_currentIndex := u_currentIndex ?us - 1\<rparr>,
      c_layers := restore_layers (c_layers c) snaps\<rparr>"
    using assms(2) True i sw
    by (simp add: CanvasCore_undo_def UndoStack_popState_def Let_def snaps_def map_copy_id
        del: One_nat_def)
  have "stack_inv (?us\<lparr>u_currentIndex := u_currentIndex ?us - 1\<rparr>)"
    using inv by (auto simp: stack_inv_def)
  then show ?thesis
    using restore_layers_wf [OF lw sw] by (simp add: c' canvas_inv_def)
qed

lemma canvas_inv_redo:
  assumes "canvas_inv c" "CanvasCore_redo c = Inr c'"
  shows "canvas_inv c'"
proof (cases "UndoStack_canRedo (c_undoStack c)")
  case False
  then show ?thesis using assms by (simp add: CanvasCore_redo_def)
next
  case True
  let ?us = "c_undoStack c"
  have inv: "stack_inv ?us" and lw: "\<forall>layer \<in> set (c_layers c). grid_wf (l_pixels layer)"
    using assms(1) by (simp_all add: canvas_inv_def)
  have i: "u_currentIndex ?us < length (u_states ?us)"
    using assms(2) True
    by (auto simp: CanvasCore_redo_def UndoStack_redoState_def split: if_splits)
  define snaps where "snaps = layerSnapshots (u_states ?us ! u_currentIndex ?us)"
  have sw: "\<forall>gr \<in> set snaps. grid_wf gr"
    using inv nth_mem [OF i] unfolding stack_inv_def snaps_def by blast
  have c': "c' = c\<lparr>c_undoStack := ?us\<lparr>u_currentIndex := u_currentIndex ?us + 1\<rparr>,
      c_layers := restore_layers (c_layers c) snaps\<rparr>"
    using assms(2) True i sw
    by (simp add: CanvasCore_redo_def UndoStack_redoState_def snaps_def map_copy_id)
  have "stack_inv (?us\<lparr>u_currentIndex := u_currentIndex ?us + 1\<rparr>)"
    using inv i by (simp add: stack_inv_def)
  then show ?thesis
    using restore_layers_wf [OF lw sw] by (simp add: c' canvas_inv_def)
qed

lemma foldl_preserves:
  assumes "P s" "\<And>s x. P s \<Longrightarrow> P (f s x)"
  shows "P (foldl f s xs)"
  using assms(1) by (induction xs arbitrary: s) (simp_all add: assms(2))

lemma setPixel_wf:
  assumes "grid_wf h"
  shows "grid_wf (snd (TileGrid_setPixel (s, h) x y p))"
proof (cases "covered h x y")
  case True
  show ?thesis
    using assms by (simp add: setPixel_covered [OF assms True] grid_wf_def)
next
  case False
  show ?thesis
    using assms by (simp add: setPixel_not_covered [OF False])
qed

lemma stamp_pixel_wf:
  assumes "grid_wf (snd w)"
  shows "grid_wf (snd (stamp_pixel fp blend W H opa radius x y dy w dx))"
proof -
  obtain s h where w: "w = (s, h)"
    by (cases w)
  have "stamp_pixel fp blend W H opa radius x y dy w dx = w \<or>
      (\<exists>v. stamp_pixel fp blend W H opa radius x y dy w dx
         = TileGrid_setPixel (s, h) (x + dx) (y + dy) v)"
    by (auto simp: stamp_pixel_def TileGrid_setPixel_def Let_def split_def w)
  then show ?thesis
    using assms setPixel_wf [of h s] by (auto simp: w)
qed

lemma stamp_point_wf:
  assumes "grid_wf (snd w)"
  shows "grid_wf (snd (stamp_point fp blend W H bsize opa w point))"
  unfolding stamp_point_def Let_def
  by (intro foldl_preserves [where P = "\<lambda>w. grid_wf (snd w)"] assms stamp_pixel_wf)

lemma layers_update_wf:
  assumes "\<forall>layer \<in> set ls. grid_wf (l_pixels layer)" "grid_wf gr"
  shows "\<forall>layer \<in> set (ls[i := (ls ! i)\<lparr>l_pixels := gr\<rparr>]). grid_wf (l_pixels layer)"
  using assms by (auto dest!: set_update_subset_insert [THEN subsetD])

lemma canvas_inv_drawBrushStroke:
  assumes "canvas_inv (snd sc)"
  shows "canvas_inv (snd (CanvasCore_drawBrushStroke fp sc li pts bsize opa col))"
proof (cases "li < 0 \<or> li \<ge> int (length (c_layers (snd sc)))")
  case True
  then show ?thesis using assms by (simp add: CanvasCore_drawBrushStroke_def)
next
  case False
  let ?c = "snd sc" and ?layer = "c_layers (snd sc) ! nat li"
  have "nat li < length (c_layers ?c)"
    using False by linarith
  then have "grid_wf (l_pixels ?layer)"
    using assms nth_mem unfolding canvas_inv_def by blast
  then have gw: "grid_wf (snd (foldl (stamp_point fp (brush_blend fp col) (c_width ?c) (c_height ?c)
      bsize opa) (fst sc, l_pixels ?layer) pts))"
    by (intro foldl_preserves [where P = "\<lambda>w. grid_wf (snd w)"] stamp_point_wf) simp_all
  have lw: "\<forall>layer \<in> set (c_layers ?c). grid_wf (l_pixels layer)"
    using assms by (simp add: canvas_inv_def)
  show ?thesis
    using assms False layers_update_wf [OF lw gw, of "nat li"]
    by (simp add: CanvasCore_drawBrushStroke_def canvas_inv_def Let_def)
qed

lemma canvas_inv_eraseBrushStroke:
  assumes "canvas_inv (snd sc)"
  shows "canvas_inv (snd (CanvasCore_eraseBrushStroke fp sc li pts bsize opa))"
proof (cases "li < 0 \<or> li \<ge> int (length (c_layers (snd sc)))")
  case True
  then show ?thesis using assms by (simp add: CanvasCore_eraseBrushStroke_def)
next
  case False
  let ?c = "snd sc" and ?layer = "c_layers (snd sc) ! nat li"
  have "nat li < length (c_layers ?c)"
    using False by linarith
  then have "grid_wf (l_pixels ?layer)"
    using assms nth_mem unfolding canvas_inv_def by blast
  then have gw: "grid_wf (snd (foldl (stamp_point fp (eraser_blend fp) (c_width ?c) (c_height ?c)
      bsize opa) (fst sc, l_pixels ?layer) pts))"
    by (intro foldl_preserves [where P = "\<lambda>w. grid_wf (snd w)"] stamp_point_wf) simp_all
  have lw: "\<forall>layer \<in> set (c_layers ?c). grid_wf (l_pixels layer)"
    using assms by (simp add: canvas_inv_def)
  show ?thesis
    using assms False layers_update_wf [OF lw gw, of "nat li"]
    by (simp add: CanvasCore_eraseBrushStroke_def canvas_inv_def Let_def)
qed

lemma canvas_inv_run_kernels:
  assumes "canvas_inv (snd sc)"
  shows "canvas_inv (snd (run_kernels fp sc ks))"
  unfolding run_kernels_def
proof (rule foldl_preserves [where P = "\<lambda>sc. canvas_inv (snd sc)", OF assms])
  fix sc :: "statics \<times> CanvasCore" and k
  assume "canvas_inv (snd sc)"
  then show "canvas_inv (snd (run_kernel fp sc k))"
    by (cases k) (simp_all add: canvas_inv_drawBrushStroke canvas_inv_eraseBrushStroke)
qed

section \<open>Cancelling a filter\<close>
























section \<open>Blending in binary32\<close>

subsection \<open>Rounding\<close>

lemma round_even_near:
  assumes "\<bar>z - of_int n\<bar> < 1 / 2"
  shows "round_even z = n"
proof -
  have b: "z - of_int n < 1 / 2" "of_int n - z < 1 / 2"
    using assms by linarith+
  consider "of_int n \<le> z" | "z < of_int n" by linarith
  then show ?thesis
  proof cases
    case 1
    then have "\<lfloor>z\<rfloor> = n"
      using b by (intro floor_unique) linarith+
    then show ?thesis
      using b by (simp add: round_even_def)
  next
    case 2
    have "of_int (n - 1) \<le> z" "z < of_int (n - 1) + 1"
      using b 2 by simp_all
    then have f: "\<lfloor>z\<rfloor> = n - 1"
      by (rule floor_unique)
    have "\<not> z - of_int (n - 1) < 1 / 2" "1 / 2 < z - of_int (n - 1)"
      using b by simp_all
    then show ?thesis
      by (simp add: round_even_def f del: of_int_diff)
  qed
qed

lemma round_even_of_int [simp]: "round_even (of_int n) = n"
  by (rule round_even_near) simp

lemma round_even_err: "\<bar>z - of_int (round_even z)\<bar> \<le> 1 / 2"
proof -
  define n where "n = \<lfloor>z\<rfloor>"
  have n: "of_int n \<le> z" "z < of_int n + 1"
    unfolding n_def by linarith+
  have "round_even z = n \<and> z - of_int n \<le> 1 / 2 \<or> round_even z = n + 1 \<and> 1 / 2 \<le> z - of_int n"
    by (auto simp: round_even_def Let_def n_def [symmetric])
  then show ?thesis
    using n by (auto simp: abs_if)
qed

lemma binade_bounds:
  assumes "x \<noteq> 0"
  shows "2 powi binade x \<le> \<bar>x\<bar>" "\<bar>x\<bar> < 2 powi (binade x + 1)"
proof -
  have "2 powr of_int (binade x) \<le> \<bar>x\<bar> \<and> \<bar>x\<bar> < 2 powr (of_int (binade x) + 1)"
    using floor_log_eq_powr_iff [of "\<bar>x\<bar>" 2 "binade x"] assms
    by (simp add: binade_def)
  moreover have "(2::real) powr (of_int (binade x) + 1) = 2 powr of_int (binade x + 1)"
    by simp
  ultimately show "2 powi binade x \<le> \<bar>x\<bar>" "\<bar>x\<bar> < 2 powi (binade x + 1)"
    by (simp_all only: powr_real_of_int' [of 2, simplified])
qed

lemma binade_eq:
  assumes "2 powi e \<le> \<bar>x\<bar>" "\<bar>x\<bar> < 2 powi (e + 1)"
  shows "binade x = e"
proof -
  have "0 < \<bar>x\<bar>"
    using assms(1) zero_less_power_int [of "2::real" e] by linarith
  moreover have "(2::real) powr of_int e = 2 powi e" "(2::real) powr (of_int e + 1) = 2 powi (e + 1)"
    using powr_real_of_int' [of "2::real" e] powr_real_of_int' [of "2::real" "e + 1"]
    by simp_all
  ultimately show ?thesis
    using floor_log_eq_powr_iff [of "\<bar>x\<bar>" 2 e] assms
    by (simp add: binade_def)
qed

lemma pow2_add: "(2::real) powi (a + b) = 2 powi a * 2 powi b"
  by (simp add: power_int_add)

lemma pow2_diff: "(2::real) powi (a - b) = 2 powi a / 2 powi b"
  by (simp add: power_int_diff)

text \<open>the rounding is the value when the value is on the grid\<close>

lemma f32_near:
  fixes y t :: real
  assumes "y \<noteq> 0" "- 126 \<le> binade y"
    and "t = of_int n * 2 powi (binade y - 23)"
    and "\<bar>y - t\<bar> < 2 powi (binade y - 24)"
  shows "f32 y = t"
proof -
  define u :: real where "u = 2 powi (binade y - 23)"
  have u: "0 < u" by (simp add: u_def)
  have "(2::real) powi (binade y - 24) = 2 powi ((binade y - 23) - 1)"
    by simp
  also have "\<dots> = u / 2"
    unfolding u_def by (subst pow2_diff) simp
  finally have half: "(2::real) powi (binade y - 24) = u / 2" .
  have t: "t = of_int n * u"
    unfolding u_def by (fact assms(3))
  have "y / u - of_int n = (y - t) / u"
    using u by (simp add: t field_simps)
  then have "\<bar>y / u - of_int n\<bar> = \<bar>y - t\<bar> / u"
    using u by (simp add: abs_divide)
  also have "\<dots> < 1 / 2"
  proof -
    have "\<bar>y - t\<bar> < u / 2"
      using assms(4) unfolding half .
    then show ?thesis
      using u by (simp add: field_simps)
  qed
  finally have "round_even (y / u) = n"
    by (rule round_even_near)
  moreover have "f32 y = of_int (round_even (y / 2 powi (binade y - 23)))
      * 2 powi (binade y - 23)"
    using assms(1,2) by (simp add: f32_def Let_def max_def)
  then have "f32 y = of_int (round_even (y / u)) * u"
    unfolding u_def .
  ultimately show ?thesis
    by (simp add: t)
qed

lemma f32_exact:
  assumes "y \<noteq> 0" "- 126 \<le> binade y"
    and "y = of_int n * 2 powi (binade y - 23)"
  shows "f32 y = y"
  using f32_near [OF assms(1,2,3)] by simp

lemma f32_0 [simp]: "f32 0 = 0"
  by (simp add: f32_def)

lemma pow2_le_1: "k \<le> 0 \<Longrightarrow> (2::real) powi k \<le> 1"
  using power_int_increasing [of k 0 "2::real"] by simp

lemma pow2_mono: "a \<le> b \<Longrightarrow> (2::real) powi a \<le> 2 powi b"
  by (rule power_int_increasing) simp_all

lemma pow2_nat: "0 \<le> k \<Longrightarrow> (2::real) powi k = 2 ^ nat k"
  by (rule power_int_nonneg_exp)

lemma pow2_cancel: "(2::real) powi a * 2 powi (- a) = 1"
  by (simp add: power_int_minus field_simps)

text \<open>integers of at most 24 bits are binary32 values\<close>

lemma f32_int:
  assumes "0 < s" "s < 2 ^ 24"
  shows "f32 (of_int s) = of_int s"
proof -
  define x :: real where "x = of_int s"
  define e where "e = binade x"
  have "1 \<le> s"
    using assms(1) by linarith
  then have x1: "1 \<le> x"
    by (simp add: x_def)
  have "(of_int s :: real) < of_int (2 ^ 24)"
    using assms(2) unfolding of_int_less_iff .
  then have x2: "x < 2 ^ 24"
    by (simp add: x_def)
  have x: "x \<noteq> 0" "1 \<le> x" "x < 2 ^ 24"
    using x1 x2 by simp_all
  have b: "2 powi e \<le> x" "x < 2 powi (e + 1)"
    using binade_bounds [OF x(1)] x(2) by (simp_all add: e_def)
  have e0: "0 \<le> e"
  proof (rule ccontr)
    assume "\<not> 0 \<le> e"
    then have "(2::real) powi (e + 1) \<le> 1"
      by (intro pow2_le_1) simp
    then show False using b(2) x(2) by simp
  qed
  have e23: "e \<le> 23"
  proof (rule ccontr)
    assume "\<not> e \<le> 23"
    then have "(2::real) powi 24 \<le> 2 powi e"
      by (intro pow2_mono) simp
    then show False using b(1) x(3) by simp
  qed
  define n where "n = s * 2 ^ nat (23 - e)"
  have "of_int n * 2 powi (e - 23) = x * (2 powi (23 - e) * 2 powi (- (23 - e)))"
    using e23 by (simp add: n_def x_def pow2_nat)
  also have "\<dots> = x"
    by (simp only: pow2_cancel mult_1_right)
  finally have "x = of_int n * 2 powi (binade x - 23)"
    by (simp add: e_def)
  moreover have "- 126 \<le> binade x"
    using e0 by (simp add: e_def)
  ultimately show ?thesis
    using f32_exact [OF x(1)] by (simp add: x_def)
qed

lemma f32_1 [simp]: "f32 1 = 1"
  using f32_int [of 1] by simp

text \<open>a rounded value is a binary32 value\<close>

lemma f32_idem:
  assumes "0 < x" "- 126 \<le> binade x"
  shows "f32 (f32 x) = f32 x" "0 < f32 x"
proof -
  define e where "e = binade x"
  define u :: real where "u = 2 powi (e - 23)"
  define N where "N = round_even (x / u)"
  have u: "0 < u" by (simp add: u_def)
  have q: "f32 x = of_int N * u"
    using assms by (simp add: f32_def Let_def max_def N_def u_def e_def)
  have b: "2 powi e \<le> x" "x < 2 powi (e + 1)"
    using binade_bounds [of x] assms(1) by (simp_all add: e_def)
  have p: "(2::real) powi e = 2 ^ 23 * u" "(2::real) powi (e + 1) = 2 ^ 24 * u"
    by (simp_all add: u_def pow2_diff pow2_add)
  have b': "2 ^ 23 * u \<le> x" "x < 2 ^ 24 * u"
    using b unfolding p .
  have xu: "2 ^ 23 \<le> x / u" "x / u < 2 ^ 24"
    using b' u by (simp_all add: field_simps)
  have err: "\<bar>x / u - of_int N\<bar> \<le> 1 / 2"
    unfolding N_def by (rule round_even_err)
  have "(2::real) ^ 23 - 1 / 2 \<le> of_int N" "of_int N \<le> (2::real) ^ 24 + 1 / 2"
    using xu err by linarith+
  then have "(2 ^ 23 - 1 :: real) < of_int N" "of_int N < (2 ^ 24 + 1 :: real)"
    by linarith+
  then have "(of_int (2 ^ 23 - 1) :: real) < of_int N" "(of_int N :: real) < of_int (2 ^ 24 + 1)"
    by simp_all
  then have N: "2 ^ 23 \<le> N" "N \<le> 2 ^ 24"
    unfolding of_int_less_iff by linarith+
  show pos: "0 < f32 x"
    using N u by (simp add: q)
  consider "N < 2 ^ 24" | "N = 2 ^ 24"
    using N by linarith
  then show "f32 (f32 x) = f32 x"
  proof cases
    case 1
    have "(of_int (2 ^ 23) :: real) \<le> of_int N" "(of_int N :: real) < of_int (2 ^ 24)"
      using N(1) 1 unfolding of_int_le_iff of_int_less_iff .
    then have "(2::real) ^ 23 \<le> of_int N" "(of_int N :: real) < 2 ^ 24"
      by simp_all
    then have "2 powi e \<le> \<bar>f32 x\<bar>" "\<bar>f32 x\<bar> < 2 powi (e + 1)"
      using u pos by (simp_all add: p q)
    then have be: "binade (f32 x) = e"
      by (rule binade_eq)
    have y0: "f32 x \<noteq> 0"
      using pos by simp
    have n126: "- 126 \<le> binade (f32 x)"
      using assms(2) by (simp only: be e_def)
    have rep: "f32 x = of_int N * 2 powi (binade (f32 x) - 23)"
      unfolding be by (simp only: q u_def)
    show ?thesis
      by (rule f32_exact [OF y0 n126 rep])
  next
    case 2
    then have q': "f32 x = 2 powi (e + 1)"
      by (simp add: q p)
    have "2 powi (e + 1) \<le> \<bar>f32 x\<bar>" "\<bar>f32 x\<bar> < 2 powi (e + 1 + 1)"
      by (simp_all add: q' pow2_add)
    then have be: "binade (f32 x) = e + 1"
      by (rule binade_eq)
    have y0: "f32 x \<noteq> 0"
      using pos by simp
    have n126: "- 126 \<le> binade (f32 x)"
      using assms(2) by (simp add: be e_def)
    have rep: "f32 x = of_int (2 ^ 23) * 2 powi (binade (f32 x) - 23)"
      unfolding be by (simp add: q' pow2_diff pow2_add)
    show ?thesis
      by (rule f32_exact [OF y0 n126 rep])
  qed
qed

subsection \<open>A channel divided and multiplied by 65535\<close>

text \<open>the value \<open>s\<close> is what a rounding of \<open>y\<close> gives when \<open>y\<close> is near enough\<close>

lemma f32_near_int:
  fixes s :: int and y :: real
  assumes "0 < y" "- 126 \<le> binade y" "binade y \<le> 23"
    and "\<bar>y - of_int s\<bar> < 2 powi (binade y - 24)"
  shows "f32 y = of_int s"
proof -
  define e' where "e' = binade y"
  define n where "n = s * 2 ^ nat (23 - e')"
  have "(of_int n :: real) * 2 powi (e' - 23)
      = of_int s * (2 powi (23 - e') * 2 powi (- (23 - e')))"
    using assms(3) by (simp add: n_def e'_def pow2_nat)
  also have "\<dots> = of_int s"
    by (simp only: pow2_cancel mult_1_right)
  finally have rep: "(of_int s :: real) = of_int n * 2 powi (binade y - 23)"
    by (simp add: e'_def)
  show ?thesis
    by (rule f32_near [OF _ _ rep assms(4)]) (use assms(1,2) in simp_all)
qed

lemma f32_round_trip_inner:
  fixes s :: int
  assumes "0 < s" "s < 65535"
  shows "f32 (f32 (of_int s / 65535) * 65535) = of_int s"
    and "0 < f32 (of_int s / 65535)" and "- 126 \<le> binade (of_int s / 65535)"
proof -
  define x :: real where "x = of_int s / 65535"
  define e where "e = binade x"
  define U :: real where "U = 2 powi e"
  have s1: "(1::real) \<le> of_int s" "(of_int s :: real) \<le> 65534"
    using assms by simp_all
  have x: "0 < x" "x < 1" "1 / 65535 \<le> x"
    using s1 by (simp_all add: x_def)
  have U: "0 < U"
    by (simp add: U_def)
  have b: "U \<le> x" "x < 2 * U"
    using binade_bounds [of x] x(1) by (simp_all add: e_def U_def pow2_add)
  have em1: "e \<le> - 1"
  proof (rule ccontr)
    assume "\<not> e \<le> - 1"
    then have "(2::real) powi 0 \<le> 2 powi e"
      by (intro pow2_mono) simp
    then show False using b(1) x(2) by (simp add: U_def)
  qed
  have e16: "- 16 \<le> e"
  proof (rule ccontr)
    assume "\<not> - 16 \<le> e"
    then have "(2::real) powi (e + 1) \<le> 2 powi (- 16)"
      by (intro pow2_mono) simp
    then have "2 * U \<le> 1 / 65536"
      by (simp add: U_def pow2_add power_int_minus)
    then show False using b(2) x(3) by simp
  qed
  show n126: "- 126 \<le> binade (of_int s / 65535)"
    using e16 by (simp add: e_def x_def)
  have U1: "U \<le> 1 / 2"
    using pow2_mono [OF em1] by (simp add: U_def power_int_minus)
  define u :: real where "u = 2 powi (e - 23)"
  have u: "u = U / 8388608"
    by (simp add: u_def U_def pow2_diff)
  define N where "N = round_even (x / u)"
  define q where "q = f32 x"
  have q: "q = of_int N * u"
    using x(1) e16 by (simp add: q_def f32_def Let_def max_def N_def u_def e_def)
  have err: "\<bar>x / u - of_int N\<bar> \<le> 1 / 2"
    unfolding N_def by (rule round_even_err)
  have upos: "0 < u"
    using U by (simp add: u)
  have "x / u - of_int N = (x - q) / u"
    using upos by (simp add: q field_simps)
  then have "\<bar>x - q\<bar> / u \<le> 1 / 2"
    using err upos by (simp add: abs_divide)
  then have qerr: "\<bar>x - q\<bar> \<le> u / 2"
    using upos by (simp add: field_simps)
  define y where "y = q * 65535"
  have "y - of_int s = 65535 * (q - x)"
    by (simp add: y_def x_def)
  then have "\<bar>y - of_int s\<bar> = \<bar>65535 * (q - x)\<bar>"
    by (simp only:)
  also have "\<dots> = \<bar>65535\<bar> * \<bar>q - x\<bar>"
    by (rule abs_mult)
  also have "\<dots> = 65535 * \<bar>x - q\<bar>"
    by (simp add: abs_minus_commute)
  finally have "\<bar>y - of_int s\<bar> = 65535 * \<bar>x - q\<bar>" .
  then have yerr: "\<bar>y - of_int s\<bar> \<le> 65535 * u / 2"
    using qerr by simp
  have yerr': "\<bar>y - of_int s\<bar> < U / 256"
    using yerr U by (simp add: u)
  have "\<bar>x - q\<bar> \<le> U / 16777216"
    using qerr by (simp add: u)
  then have qpos: "0 < q"
    using b(1) U by linarith
  show "0 < f32 (of_int s / 65535)"
    using qpos by (simp add: q_def x_def)
  text \<open>the power of two at or below \<open>s\<close>\<close>
  define P :: int where "P = 2 ^ nat (e + 16)"
  have P: "of_int P = 65536 * U"
  proof -
    have "(of_int P :: real) = 2 powi (e + 16)"
      using e16 by (simp add: P_def pow2_nat)
    then show ?thesis
      by (simp add: U_def pow2_add)
  qed
  have "(of_int P :: real) \<le> 32768"
    using U1 by (simp add: P)
  then have "(of_int P :: real) \<le> of_int 32768"
    by simp
  then have P_le: "P \<le> 32768"
    unfolding of_int_le_iff .
  have "65535 * U \<le> of_int s"
    using b(1) by (simp add: x_def field_simps)
  then have "(of_int (65535 * P) :: real) \<le> of_int (65536 * s)"
    by (simp add: P)
  then have "65535 * P \<le> 65536 * s"
    unfolding of_int_le_iff .
  then have sP: "P \<le> s"
    using P_le by linarith
  consider "P + 1 \<le> s" | "s = P"
    using sP by linarith
  then have "f32 y = of_int s"
  proof cases
    case 1
    then have "(of_int (P + 1) :: real) \<le> of_int s"
      unfolding of_int_le_iff .
    then have "65536 * U + 1 \<le> of_int s"
      by (simp add: P)
    then have ylow: "65536 * U \<le> y"
      using yerr' U1 U by linarith
    have y1: "\<bar>y - of_int s\<bar> < 1"
      using yerr' U1 by linarith
    have ypos: "0 < y"
      using ylow U by linarith
    have "y < 65536"
      using y1 s1 by linarith
    then have yhi: "y < 2 powi 16"
      by simp
    define e' where "e' = binade y"
    have b': "2 powi e' \<le> y" "y < 2 powi (e' + 1)"
      using binade_bounds [of y] ypos by (simp_all add: e'_def)
    have lo: "e + 16 \<le> e'"
    proof (rule ccontr)
      assume "\<not> e + 16 \<le> e'"
      then have "(2::real) powi (e' + 1) \<le> 2 powi (e + 16)"
        by (intro pow2_mono) simp
      then show False
        using b'(2) ylow by (simp add: U_def pow2_add)
    qed
    have hi: "e' \<le> 15"
    proof (rule ccontr)
      assume "\<not> e' \<le> 15"
      then have "(2::real) powi 16 \<le> 2 powi e'"
        by (intro pow2_mono) simp
      then show False
        using b'(1) yhi by simp
    qed
    have "(2::real) powi (e + 16 - 24) \<le> 2 powi (e' - 24)"
      using lo by (intro pow2_mono) simp
    moreover have "(2::real) powi (e + 16 - 24) = U / 256"
      by (simp add: U_def pow2_diff)
    ultimately have "\<bar>y - of_int s\<bar> < 2 powi (binade y - 24)"
      using yerr' by (simp add: e'_def)
    then show ?thesis
      using lo hi e16 ypos by (intro f32_near_int) (simp_all add: e'_def)
  next
    case 2
    have xs: "x = 65536 * U / 65535"
      by (simp add: x_def 2 P)
    have r: "x / u = 8388736 + 128 / 65535"
      using U by (simp add: xs u)
    have "\<bar>x / u - of_int 8388736\<bar> < 1 / 2"
      unfolding r by simp
    then have "N = 8388736"
      unfolding N_def by (rule round_even_near)
    then have yU: "y = (65536 - 1 / 65536) * U"
      by (simp add: y_def q u)
    have "2 powi (e + 15) \<le> \<bar>y\<bar>" "\<bar>y\<bar> < 2 powi (e + 15 + 1)"
      using U by (simp_all add: yU pow2_add U_def [symmetric])
    then have be: "binade y = e + 15"
      by (rule binade_eq)
    have "\<bar>y - of_int s\<bar> = U / 65536"
      using U by (simp add: yU 2 P)
    moreover have "(2::real) powi (e + 15 - 24) = U / 512"
      by (simp add: U_def pow2_diff)
    ultimately have "\<bar>y - of_int s\<bar> < 2 powi (binade y - 24)"
      using U by (simp add: be)
    moreover have "0 < y"
      using U by (simp add: yU)
    ultimately show ?thesis
      using e16 em1 by (intro f32_near_int) (simp_all add: be)
  qed
  then show "f32 (f32 (of_int s / 65535) * 65535) = of_int s"
    by (simp add: y_def q_def x_def)
qed

lemma of_u16_range: "0 \<le> uint (v :: u16)" "uint (v :: u16) \<le> 65535"
proof -
  show "0 \<le> uint v" by simp
  have "uint v < 2 ^ 16"
    using uint_bounded [of v] by simp
  then show "uint v \<le> 65535"
    by simp
qed

lemma to_u16_int:
  assumes "0 \<le> s" "s \<le> 65535"
  shows "to_u16 (of_int s) = Inr (word_of_int s)"
  using assms by (simp add: to_u16_def)

text \<open>a channel divided by 65535 and multiplied by 65535 again\<close>

lemma channel_round_trip:
  fixes v :: u16
  defines "q \<equiv> fdiv (of_u16 v) 65535"
  shows "f32 q = q" and "fmul q 65535 = of_u16 v"
proof -
  define s where "s = uint v"
  have r: "0 \<le> s" "s \<le> 65535"
    using of_u16_range [of v] by (simp_all add: s_def)
  have q: "q = f32 (of_int s / 65535)"
    by (simp add: q_def fdiv_def of_u16_def s_def)
  consider "s = 0" | "s = 65535" | "0 < s" "s < 65535"
    using r by linarith
  then have "f32 q = q \<and> f32 (q * 65535) = of_int s"
  proof cases
    case 1
    then show ?thesis by (simp add: q)
  next
    case 2
    have "f32 (of_int 65535) = of_int 65535"
      by (rule f32_int) simp_all
    then show ?thesis by (simp add: q 2)
  next
    case 3
    note rt = f32_round_trip_inner [OF 3]
    have "0 < of_int s / (65535 :: real)"
      using 3 by simp
    then have "f32 q = q"
      unfolding q using rt(3) by (intro f32_idem(1)) 
    then show ?thesis
      using rt(1) by (simp add: q)
  qed
  then show "f32 q = q" and "fmul q 65535 = of_u16 v"
    by (simp_all add: fmul_def of_u16_def s_def)
qed

lemma blend_out_opaque:
  fixes v :: u16
  shows "blend_out (fdiv (of_u16 v) 65535) d 1 dA 1 = Inr v"
proof -
  define q where "q = fdiv (of_u16 v) 65535"
  have q: "f32 q = q" "fmul q 65535 = of_u16 v"
    unfolding q_def by (rule channel_round_trip)+
  have "blend_out q d 1 dA 1 = to_u16 (fmul q 65535)"
    by (simp add: blend_out_def fmul_def fadd_def fsub_def fdiv_def q(1))
  also have "\<dots> = to_u16 (of_int (uint v))"
    by (simp add: q(2) of_u16_def)
  also have "\<dots> = Inr (word_of_int (uint v))"
    using of_u16_range [of v] by (intro to_u16_int)
  finally show ?thesis
    by (simp add: q_def)
qed

lemma alpha_opaque:
  "fmul (fdiv (of_u16 65535) 65535) 1 = 1"
  "fadd 1 (fmul dA (fsub 1 1)) = 1"
  "to_u16 (fmul 1 65535) = Inr 65535"
proof -
  show "fmul (fdiv (of_u16 65535) 65535) 1 = 1"
    by (simp add: fmul_def fdiv_def of_u16_def)
  show "fadd 1 (fmul dA (fsub 1 1)) = 1"
    by (simp add: fmul_def fadd_def fsub_def)
  have "f32 (of_int 65535) = of_int 65535"
    by (rule f32_int) simp_all
  then have "fmul 1 65535 = of_int 65535"
    by (simp add: fmul_def)
  then show "to_u16 (fmul 1 65535) = Inr 65535"
    by (simp add: to_u16_def)
qed

text \<open>the quotient is rounded: the channel 21845 is a third of 65535, which is no
  binary32 value\<close>

lemma fdiv_third: "fdiv (of_u16 21845) 65535 = 11184811 / 33554432"
proof -
  have "2 powi (- 2) \<le> \<bar>1 / 3 :: real\<bar>" "\<bar>1 / 3 :: real\<bar> < 2 powi (- 2 + 1)"
    by (simp_all add: power_int_minus)
  then have be: "binade (1 / 3) = - 2"
    by (rule binade_eq)
  have "f32 (1 / 3) = 11184811 / 33554432"
  proof (rule f32_near [where n = 11184811])
    show "(1 / 3 :: real) \<noteq> 0" by simp
    show "- 126 \<le> binade (1 / 3)" by (simp add: be)
    show "(11184811 / 33554432 :: real) = of_int 11184811 * 2 powi (binade (1 / 3) - 23)"
      by (simp add: be power_int_minus)
    show "\<bar>1 / 3 - 11184811 / 33554432 :: real\<bar> < 2 powi (binade (1 / 3) - 24)"
      by (simp add: be power_int_minus)
  qed
  then show ?thesis
    by (simp add: fdiv_def of_u16_def)
qed

text \<open>
  C6. For every destination pixel \<open>D\<close> and every source pixel \<open>S\<close> whose alpha is 65535,
  \<open>blendPixels\<close> with mode \<open>Normal\<close> and opacity 1 returns normally and leaves in \<open>D\<close> the
  four channels of \<open>S\<close>: each channel, divided by 65535 and multiplied by 65535 in
  binary32, is converted back to the value it had.
\<close>

theorem normal_blend_replaces:
  assumes "px_a S = 65535"
  shows "CanvasCore_blendPixels D S Normal 1 = Inr S"
proof -
  have "CanvasCore_blendPixels D S Normal 1
      = Inr \<lparr>px_r = px_r S, px_g = px_g S, px_b = px_b S, px_a = 65535\<rparr>"
    by (simp add: CanvasCore_blendPixels_def Let_def assms alpha_opaque
        blend_channel_def blend_out_opaque)
  then show ?thesis
    using assms by simp
qed

theorem normal_blend_replaces_witness:
  "px_a \<lparr>px_r = 1, px_g = 21845, px_b = 65534, px_a = 65535\<rparr> = 65535
   \<and> CanvasCore_blendPixels \<lparr>px_r = 7, px_g = 0, px_b = 40000, px_a = 123\<rparr>
        \<lparr>px_r = 1, px_g = 21845, px_b = 65534, px_a = 65535\<rparr> Normal 1
      = Inr \<lparr>px_r = 1, px_g = 21845, px_b = 65534, px_a = 65535\<rparr>"
  using normal_blend_replaces
    [of "\<lparr>px_r = 1, px_g = 21845, px_b = 65534, px_a = 65535\<rparr>"
        "\<lparr>px_r = 7, px_g = 0, px_b = 40000, px_a = 123\<rparr>"]
  by simp

end
